theory Spec2Isabelle
  imports Main "HOL-Library.Sublist"
begin

section \<open>Error kinds and the HTTP response writer\<close>

text \<open>
  The handlers build their errors with \<^verbatim>\<open>util.NewErrBadRequest\<close> and
  \<^verbatim>\<open>util.NewErrNotFound\<close> and test them with \<^verbatim>\<open>util.IsErrBadRequest\<close> and
  \<^verbatim>\<open>util.IsErrNotFound\<close>; every other error is a plain Go error. The package
  \<^verbatim>\<open>util\<close> is not among the sources, so the kinds are the constructors of a datatype
  and the string is what \<^verbatim>\<open>err.Error()\<close> returns. \<open>ErrConflict\<close> is the kind the
  datamanager reports for a stale change group token (spec, section 7).
\<close>

datatype error =
    ErrBadRequest string
  | ErrNotFound string
  | ErrConflict string
  | ErrGeneric string

fun IsErrBadRequest :: "error \<Rightarrow> bool" where
  "IsErrBadRequest (ErrBadRequest m) = True"
| "IsErrBadRequest e = False"

fun IsErrNotFound :: "error \<Rightarrow> bool" where
  "IsErrNotFound (ErrNotFound m) = True"
| "IsErrNotFound e = False"

fun Error :: "error \<Rightarrow> string" where
  "Error (ErrBadRequest m) = m"
| "Error (ErrNotFound m) = m"
| "Error (ErrConflict m) = m"
| "Error (ErrGeneric m) = m"

text \<open>
  Go's \<^verbatim>\<open>http.ResponseWriter\<close>: the status code is fixed by the first
  \<^verbatim>\<open>WriteHeader\<close> (a later one is ignored), and a \<^verbatim>\<open>Write\<close> before any
  \<^verbatim>\<open>WriteHeader\<close> sends 200 first.
\<close>

record ResponseWriter =
  rw_status :: "nat option"
  rw_body :: string

definition StatusBadRequest :: nat where "StatusBadRequest = 400"
definition StatusNotFound :: nat where "StatusNotFound = 404"
definition StatusInternalServerError :: nat where "StatusInternalServerError = 500"

definition WriteHeader :: "ResponseWriter \<Rightarrow> nat \<Rightarrow> ResponseWriter" where
  "WriteHeader w code =
     (case rw_status w of None \<Rightarrow> w\<lparr>rw_status := Some code\<rparr> | Some c \<Rightarrow> w)"

definition Write :: "ResponseWriter \<Rightarrow> string \<Rightarrow> ResponseWriter" where
  "Write w bs =
     (let w' = (case rw_status w of None \<Rightarrow> w\<lparr>rw_status := Some 200\<rparr> | Some c \<Rightarrow> w)
      in w'\<lparr>rw_body := rw_body w' @ bs\<rparr>)"

text \<open>\<^verbatim>\<open>http.Error(w, msg, code)\<close>: the header, then the message and a newline.\<close>

definition http_Error :: "ResponseWriter \<Rightarrow> string \<Rightarrow> nat \<Rightarrow> ResponseWriter" where
  "http_Error w msg code = Write (WriteHeader w code) (msg @ [CHR 0x0A])"

subsection \<open>httpError of the gateway api (src/unnamed/part_003)\<close>

text \<open>
  \<^verbatim>\<open>
  func httpError(w http.ResponseWriter, err error) bool {
      if err != nil {
          if util.IsErrBadRequest(err) {
              http.Error(w, err.Error(), http.StatusBadRequest)
          } else {
              http.Error(w, "", http.StatusInternalServerError)
          }
          return true
      }
      return false
  }
  \<close>
  A nil error is \<open>None\<close>. The result is the writer after the call and the returned bool.
\<close>

definition httpError_gw :: "ResponseWriter \<Rightarrow> error option \<Rightarrow> ResponseWriter \<times> bool" where
  "httpError_gw w err =
     (case err of
        Some e \<Rightarrow>
          (if IsErrBadRequest e then (http_Error w (Error e) StatusBadRequest, True)
           else (http_Error w [] StatusInternalServerError, True))
      | None \<Rightarrow> (w, False))"

subsection \<open>httpError of the configstore api (configstore/api/api.go)\<close>

record ErrorResponse =
  er_Message :: string

definition ErrorResponseFromError :: "error \<Rightarrow> ErrorResponse" where
  "ErrorResponseFromError err =
     (if IsErrBadRequest err \<or> IsErrNotFound err then \<lparr>er_Message = Error err\<rparr>
      else \<lparr>er_Message = ''internal server error''\<rparr>)"

text \<open>
  \<^verbatim>\<open>json.Marshal\<close> is a parameter \<open>marshal\<close>: it returns the bytes or an error, and
  the function has a branch for each.
\<close>

definition httpError_cs ::
  "(ErrorResponse \<Rightarrow> error + string) \<Rightarrow> ResponseWriter \<Rightarrow> error option \<Rightarrow> ResponseWriter \<times> bool"
where
  "httpError_cs marshal w err =
     (case err of
        None \<Rightarrow> (w, False)
      | Some e \<Rightarrow>
          (case marshal (ErrorResponseFromError e) of
             Inl merr \<Rightarrow> (WriteHeader w StatusInternalServerError, True)
           | Inr resj \<Rightarrow>
               (if IsErrBadRequest e then (Write (WriteHeader w StatusBadRequest) resj, True)
                else if IsErrNotFound e then (Write (WriteHeader w StatusNotFound) resj, True)
                else (Write (WriteHeader w StatusInternalServerError) resj, True))))"

section \<open>The limit of the list endpoints\<close>








section \<open>Webhook parsing (gitlab)\<close>

text \<open>
  The hook structs \<^verbatim>\<open>pushHook\<close> and \<^verbatim>\<open>pullRequestHook\<close> and
  \<^verbatim>\<open>types.WebhookData\<close> are declared outside the sources; the records hold the
  fields the functions read and write. \<open>oa_State\<close> and \<open>oa_Action\<close> are the state and
  the action of the merge request, the two fields the commented-out filter of
  \<^verbatim>\<open>parsePullRequestHook\<close> would look at.
\<close>

record hookCommit =
  c_URL :: string
  c_Message :: string

record hookProject =
  p_PathWithNamespace :: string
  p_WebURL :: string

record pushHook =
  ph_UserName :: string
  ph_UserUsername :: string
  ph_After :: string
  ph_Ref :: string
  ph_Commits :: "hookCommit list"
  ph_Project :: hookProject

record hookUser =
  u_Name :: string
  u_Username :: string

record hookLastCommit =
  lc_ID :: string
  lc_URL :: string

record hookObjectAttributes =
  oa_Iid :: int
  oa_LastCommit :: hookLastCommit
  oa_SourceBranch :: string
  oa_Title :: string
  oa_URL :: string
  oa_State :: string
  oa_Action :: string

record pullRequestHook =
  prh_User :: hookUser
  prh_ObjectAttributes :: hookObjectAttributes
  prh_Project :: hookProject

datatype WebhookEvent =
  WebhookEventUnset | WebhookEventPush | WebhookEventTag | WebhookEventPullRequest

record WebhookDataRepo =
  wr_Path :: string
  wr_WebURL :: string

record WebhookData =
  wd_Event :: WebhookEvent
  wd_CommitSHA :: string
  wd_Ref :: string
  wd_CommitLink :: string
  wd_Branch :: string
  wd_BranchLink :: string
  wd_Tag :: string
  wd_TagLink :: string
  wd_Message :: string
  wd_Sender :: string
  wd_PullRequestID :: string
  wd_PullRequestLink :: string
  wd_Repo :: WebhookDataRepo

text \<open>The zero value of \<^verbatim>\<open>types.WebhookData\<close>.\<close>

definition WebhookData_zero :: WebhookData where
  "WebhookData_zero =
     \<lparr>wd_Event = WebhookEventUnset, wd_CommitSHA = [], wd_Ref = [], wd_CommitLink = [],
      wd_Branch = [], wd_BranchLink = [], wd_Tag = [], wd_TagLink = [], wd_Message = [],
      wd_Sender = [], wd_PullRequestID = [], wd_PullRequestLink = [],
      wd_Repo = \<lparr>wr_Path = [], wr_WebURL = []\<rparr>\<rparr>"

definition HasPrefix :: "string \<Rightarrow> string \<Rightarrow> bool" where
  "HasPrefix s pre = (take (length pre) s = pre)"

definition TrimPrefix :: "string \<Rightarrow> string \<Rightarrow> string" where
  "TrimPrefix s pre = (if HasPrefix s pre then drop (length pre) s else s)"

text \<open>\<^verbatim>\<open>strconv.Itoa\<close> and the verb \<^verbatim>\<open>%d\<close>: the decimal digits, with a sign.\<close>

fun nat_digits :: "nat \<Rightarrow> string" where
  "nat_digits n =
     (if n < 10 then [char_of (48 + n)]
      else nat_digits (n div 10) @ [char_of (48 + n mod 10)])"

definition Itoa :: "int \<Rightarrow> string" where
  "Itoa i = (if i < 0 then CHR ''-'' # nat_digits (nat (- i)) else nat_digits (nat i))"

text \<open>
  \<^verbatim>\<open>webhookDataFromPush\<close>. \<^verbatim>\<open>hook.Commits[0]\<close> panics on an empty list: the model
  returns an error there (its only caller has excluded the case).
\<close>

definition webhookDataFromPush :: "pushHook \<Rightarrow> error + WebhookData" where
  "webhookDataFromPush hook =
     (let sender = (if ph_UserName hook = [] then ph_UserUsername hook else ph_UserName hook)
      in case ph_Commits hook of
           [] \<Rightarrow> Inl (ErrGeneric ''index out of range'')
         | c0 # cs \<Rightarrow>
             (let whd = WebhookData_zero
                    \<lparr>wd_CommitSHA := ph_After hook, wd_Ref := ph_Ref hook,
                     wd_CommitLink := c_URL c0, wd_Sender := sender,
                     wd_Repo := \<lparr>wr_Path = p_PathWithNamespace (ph_Project hook),
                                 wr_WebURL = p_WebURL (ph_Project hook)\<rparr>\<rparr>
              in if HasPrefix (ph_Ref hook) ''refs/heads/'' then
                   (let branch = TrimPrefix (ph_Ref hook) ''refs/heads/''
                    in Inr (whd\<lparr>wd_Event := WebhookEventPush, wd_Branch := branch,
                                wd_BranchLink := p_WebURL (ph_Project hook) @ ''/tree/'' @ branch,
                                wd_Message := c_Message c0\<rparr>))
                 else if HasPrefix (ph_Ref hook) ''refs/tags/'' then
                   (let tag = TrimPrefix (ph_Ref hook) ''refs/tags/''
                    in Inr (whd\<lparr>wd_Event := WebhookEventTag, wd_Tag := tag,
                                wd_TagLink := p_WebURL (ph_Project hook) @ ''/tree/'' @ tag,
                                wd_Message := ''Tag '' @ tag\<rparr>))
                 else Inl (ErrGeneric (''unsupported webhook ref '' @ ph_Ref hook))))"

definition webhookDataFromPullRequest :: "pullRequestHook \<Rightarrow> WebhookData" where
  "webhookDataFromPullRequest hook =
     (let sender = (if u_Name (prh_User hook) = [] then u_Username (prh_User hook)
                    else u_Name (prh_User hook));
          oa = prh_ObjectAttributes hook
      in WebhookData_zero
           \<lparr>wd_Event := WebhookEventPullRequest,
            wd_CommitSHA := lc_ID (oa_LastCommit oa),
            wd_Ref := ''refs/merge-requests/'' @ Itoa (oa_Iid oa) @ ''/head'',
            wd_CommitLink := lc_URL (oa_LastCommit oa),
            wd_Branch := oa_SourceBranch oa,
            wd_Message := oa_Title oa,
            wd_Sender := sender,
            wd_PullRequestID := Itoa (oa_Iid oa),
            wd_PullRequestLink := oa_URL oa,
            wd_Repo := \<lparr>wr_Path = p_PathWithNamespace (prh_Project hook),
                        wr_WebURL = p_WebURL (prh_Project hook)\<rparr>\<rparr>)"

text \<open>
  \<^verbatim>\<open>parsePush\<close> and \<^verbatim>\<open>parsePullRequest\<close> decode the JSON payload; the decoder is a
  parameter that returns the hook or the decoding error. The functions return
  \<^verbatim>\<open>(*types.WebhookData, error)\<close>: \<open>Inl\<close> is a non-nil error, \<open>Inr None\<close> is
  \<^verbatim>\<open>(nil, nil)\<close> and \<open>Inr (Some whd)\<close> is \<^verbatim>\<open>(whd, nil)\<close>.
  \<^verbatim>\<open>
  func parsePushHook(payload io.Reader) (*types.WebhookData, error) {
      push, err := parsePush(payload)
      if err != nil { return nil, err }
      // skip push events with 0 commits. i.e. a tag deletion.
      if len(push.Commits) == 0 { return nil, nil }
      return webhookDataFromPush(push)
  }
  func parsePullRequestHook(payload io.Reader) (*types.WebhookData, error) {
      prhook, err := parsePullRequest(payload)
      if err != nil { return nil, err }
      return webhookDataFromPullRequest(prhook), nil
  }
  \<close>
\<close>

definition parsePushHook ::
  "('payload \<Rightarrow> error + pushHook) \<Rightarrow> 'payload \<Rightarrow> error + WebhookData option"
where
  "parsePushHook parsePush payload =
     (case parsePush payload of
        Inl err \<Rightarrow> Inl err
      | Inr push \<Rightarrow>
          (if length (ph_Commits push) = 0 then Inr None
           else (case webhookDataFromPush push of
                   Inl err \<Rightarrow> Inl err
                 | Inr whd \<Rightarrow> Inr (Some whd))))"

definition parsePullRequestHook ::
  "('payload \<Rightarrow> error + pullRequestHook) \<Rightarrow> 'payload \<Rightarrow> error + WebhookData option"
where
  "parsePullRequestHook parsePullRequest payload =
     (case parsePullRequest payload of
        Inl err \<Rightarrow> Inl err
      | Inr prhook \<Rightarrow> Inr (Some (webhookDataFromPullRequest prhook)))"

definition hookPush :: string where "hookPush = ''Push Hook''"
definition hookTagPush :: string where "hookTagPush = ''Tag Push Hook''"
definition hookPullRequest :: string where "hookPullRequest = ''Merge Request Hook''"

text \<open>\<^verbatim>\<open>parseWebhook\<close>: the dispatch on the header \<^verbatim>\<open>X-Gitlab-Event\<close>.\<close>

definition parseWebhook ::
  "('payload \<Rightarrow> error + pushHook) \<Rightarrow> ('payload \<Rightarrow> error + pullRequestHook) \<Rightarrow>
   string \<Rightarrow> 'payload \<Rightarrow> error + WebhookData option"
where
  "parseWebhook parsePush parsePullRequest event payload =
     (if event = hookPush then parsePushHook parsePush payload
      else if event = hookTagPush then parsePushHook parsePush payload
      else if event = hookPullRequest then parsePullRequestHook parsePullRequest payload
      else Inl (ErrGeneric (''unknown webhook event type: '' @ event)))"

section \<open>Secrets and variables\<close>

text \<open>
  \<^verbatim>\<open>types.Parent\<close>, \<^verbatim>\<open>types.Secret\<close>, \<^verbatim>\<open>types.Variable\<close> and
  \<^verbatim>\<open>types.VariableValue\<close> with the fields the code and the spec (section 3) use.
  \<^verbatim>\<open>types.ConfigType\<close> and \<^verbatim>\<open>types.SecretType\<close> are Go string types; their constants
  are declared outside the sources. A secret's \<^verbatim>\<open>Data\<close>, a Go map, is an association
  list: the code only takes its length.
\<close>

type_synonym ConfigType = string

definition ConfigTypeProject :: ConfigType where "ConfigTypeProject = ''project''"
definition ConfigTypeProjectGroup :: ConfigType where "ConfigTypeProjectGroup = ''projectgroup''"
definition ConfigTypeSecret :: ConfigType where "ConfigTypeSecret = ''secret''"
definition ConfigTypeVariable :: ConfigType where "ConfigTypeVariable = ''variable''"
definition SecretTypeInternal :: string where "SecretTypeInternal = ''internal''"

record Parent =
  par_Type :: ConfigType
  par_ID :: string
  par_Path :: string

record Secret =
  s_ID :: string
  s_Name :: string
  s_Type :: string
  s_Data :: "(string \<times> string) list"
  s_Parent :: Parent

record VariableValue =
  vv_SecretName :: string
  vv_SecretVar :: string

record Variable =
  v_ID :: string
  v_Name :: string
  v_Values :: "VariableValue list"
  v_Parent :: Parent

subsection \<open>FilterOverridenVariables\<close>

text \<open>
  Modelled from the spec: \<^verbatim>\<open>FilterOverridenVariables\<close> is called by the test
  \<^verbatim>\<open>TestFilterOverridenVariables\<close> (src/unnamed/part_001) and its body is not among the
  sources. Spec, section 4.4: the input is a list of variables sorted deepest parent
  first, and the output preserves only the first occurrence of each name. The model walks
  the list once and remembers the names it has kept.
\<close>

fun filter_seen :: "string list \<Rightarrow> Variable list \<Rightarrow> Variable list" where
  "filter_seen seen [] = []"
| "filter_seen seen (v # vs) =
     (if v_Name v \<in> set seen then filter_seen seen vs
      else v # filter_seen (v_Name v # seen) vs)"

definition FilterOverridenVariables :: "Variable list \<Rightarrow> Variable list" where
  "FilterOverridenVariables variables = filter_seen [] variables"

text \<open>
  Modelled from the spec: what "the first occurrence of each name" is, for the statement
  about \<^verbatim>\<open>FilterOverridenVariables\<close>. Position \<open>i\<close> is a first occurrence when the name
  at \<open>i\<close> is not in \<open>seen\<close> and not the name of an earlier element.
\<close>

definition first_occurrences :: "string list \<Rightarrow> Variable list \<Rightarrow> nat list" where
  "first_occurrences seen vs =
     filter (\<lambda>i. v_Name (vs ! i) \<notin> set seen \<union> set (map v_Name (take i vs)))
       [0..<length vs]"

subsection \<open>GetVarValueMatchingSecret\<close>

text \<open>
  Modelled from the spec: the path comparison that \<^verbatim>\<open>GetVarValueMatchingSecret\<close> uses;
  the function is not among the sources.
  Spec, section 4.4: path comparison is by slash separated prefix, \<open>P\<close> is an ancestor
  of \<open>Q\<close> iff \<open>Q = P\<close> or \<open>Q\<close> begins with \<open>P + "/"\<close>. A path is strictly below
  another when the other is its ancestor and the two differ. The depth of a path is the
  number of its separators.
\<close>

definition is_ancestor :: "string \<Rightarrow> string \<Rightarrow> bool" where
  "is_ancestor P Q = (Q = P \<or> HasPrefix Q (P @ ''/''))"

definition strictly_below :: "string \<Rightarrow> string \<Rightarrow> bool" where
  "strictly_below Q P = (Q \<noteq> P \<and> is_ancestor P Q)"

definition path_depth :: "string \<Rightarrow> nat" where
  "path_depth p = length (filter (\<lambda>c. c = CHR ''/'') p)"

text \<open>
  Modelled from the spec: \<^verbatim>\<open>GetVarValueMatchingSecret\<close> is called by the test
  \<^verbatim>\<open>TestGetVarValueMatchingSecret\<close> (src/unnamed/part_001) and its body is not among the
  sources. Spec, section 4.4: select the secret whose parent path is an ancestor of or
  equal to \<open>varParentPath\<close> and whose name is the referenced \<open>SecretName\<close>; among the
  candidates choose the one with the deepest parent path; return null if no candidate
  qualifies. \<open>candidate\<close> is the selection, \<open>deepest\<close> the choice (the earlier of two
  candidates of the same depth stays).
\<close>

definition candidate :: "VariableValue \<Rightarrow> string \<Rightarrow> Secret \<Rightarrow> bool" where
  "candidate varValue varParentPath s =
     (s_Name s = vv_SecretName varValue \<and> is_ancestor (par_Path (s_Parent s)) varParentPath)"

fun deepest :: "Secret option \<Rightarrow> Secret list \<Rightarrow> Secret option" where
  "deepest best [] = best"
| "deepest None (s # ss) = deepest (Some s) ss"
| "deepest (Some b) (s # ss) =
     (if path_depth (par_Path (s_Parent b)) < path_depth (par_Path (s_Parent s))
      then deepest (Some s) ss else deepest (Some b) ss)"

definition GetVarValueMatchingSecret ::
  "VariableValue \<Rightarrow> string \<Rightarrow> Secret list \<Rightarrow> Secret option"
where
  "GetVarValueMatchingSecret varValue varParentPath secrets =
     deepest None (filter (candidate varValue varParentPath) secrets)"

text \<open>
  Modelled from the spec: the order of the input, "sorted deepest parent first"; the
  configstore call that produces it is not among the sources.
\<close>

definition deepest_first :: "Secret list \<Rightarrow> bool" where
  "deepest_first secrets =
     sorted_wrt (\<lambda>a b. path_depth (par_Path (s_Parent b)) \<le> path_depth (par_Path (s_Parent a)))
       secrets"

subsection \<open>CreateSecret and CreateVariable\<close>

text \<open>
  The action handler \<^verbatim>\<open>h\<close> holds the read database \<^verbatim>\<open>h.readDB\<close> and the
  datamanager \<^verbatim>\<open>h.dm\<close>; neither is among the sources, and \<^verbatim>\<open>util.ValidateName\<close>,
  \<^verbatim>\<open>util.EncodeSha256Hex\<close> and \<^verbatim>\<open>json.Marshal\<close> are not either. They are the fields
  of a record of functions: the read operations take the read transaction \<open>'tx\<close> that
  \<^verbatim>\<open>readDB.Do\<close> opens, \<^verbatim>\<open>WriteWal\<close> takes the persisted state \<open>'dm\<close> and returns its
  error and the new state. The fresh identifier of \<^verbatim>\<open>uuid.NewV4()\<close> is an argument.
\<close>

datatype ActionType = ActionTypePut | ActionTypeDelete

record Action =
  a_ActionType :: ActionType
  a_DataType :: string
  a_ID :: string
  a_Data :: string

record ('tx, 'cgt, 'dm) ActionHandler =
  ValidateName :: "string \<Rightarrow> bool"
  EncodeSha256Hex :: "string \<Rightarrow> string"
  GetChangeGroupsUpdateTokens :: "'tx \<Rightarrow> string list \<Rightarrow> error + 'cgt"
  ResolveConfigID :: "'tx \<Rightarrow> ConfigType \<Rightarrow> string \<Rightarrow> error + string"
  GetSecretByName :: "'tx \<Rightarrow> string \<Rightarrow> string \<Rightarrow> error + Secret option"
  GetVariableByName :: "'tx \<Rightarrow> string \<Rightarrow> string \<Rightarrow> error + Variable option"
  MarshalSecret :: "Secret \<Rightarrow> error + string"
  MarshalVariable :: "Variable \<Rightarrow> error + string"
  WriteWal :: "'dm \<Rightarrow> Action list \<Rightarrow> 'cgt \<Rightarrow> error option \<times> 'dm"

text \<open>
  The closure that \<^verbatim>\<open>CreateSecret\<close> passes to \<^verbatim>\<open>h.readDB.Do\<close>: it captures the change
  group token, resolves the parent, stores the resolved id in the secret and looks for a
  secret of the same name under that parent. It returns the error, or the token and the
  secret with the resolved parent id.
  \<^verbatim>\<open>
  cgt, err = h.readDB.GetChangeGroupsUpdateTokens(tx, cgNames)
  if err != nil { return err }
  parentID, err := h.readDB.ResolveConfigID(tx, secret.Parent.Type, secret.Parent.ID)
  if err != nil { return err }
  secret.Parent.ID = parentID
  s, err := h.readDB.GetSecretByName(tx, secret.Parent.ID, secret.Name)
  if err != nil { return err }
  if s != nil { return util.NewErrBadRequest(... "already exists") }
  return nil
  \<close>
\<close>

definition CreateSecret_tx ::
  "('tx, 'cgt, 'dm) ActionHandler \<Rightarrow> 'tx \<Rightarrow> string list \<Rightarrow> Secret \<Rightarrow> error + ('cgt \<times> Secret)"
where
  "CreateSecret_tx h tx cgNames secret =
     (case GetChangeGroupsUpdateTokens h tx cgNames of
        Inl err \<Rightarrow> Inl err
      | Inr cgt \<Rightarrow>
          (case ResolveConfigID h tx (par_Type (s_Parent secret)) (par_ID (s_Parent secret)) of
             Inl err \<Rightarrow> Inl err
           | Inr parentID \<Rightarrow>
               (let secret' = secret\<lparr>s_Parent := (s_Parent secret)\<lparr>par_ID := parentID\<rparr>\<rparr>
                in case GetSecretByName h tx (par_ID (s_Parent secret')) (s_Name secret') of
                     Inl err \<Rightarrow> Inl err
                   | Inr (Some s) \<Rightarrow>
                       Inl (ErrBadRequest (''secret with name '' @ s_Name secret' @ '' for ''
                              @ par_Type (s_Parent secret') @ '' with id ''
                              @ par_ID (s_Parent secret') @ '' already exists''))
                   | Inr None \<Rightarrow> Inr (cgt, secret'))))"

text \<open>
  \<^verbatim>\<open>CreateSecret\<close> returns \<^verbatim>\<open>(*types.Secret, error)\<close>; the model returns the pair and
  the persisted state after the call. The last statement returns the secret together
  with the error of \<^verbatim>\<open>WriteWal\<close>.
\<close>

definition CreateSecret ::
  "('tx, 'cgt, 'dm) ActionHandler \<Rightarrow> 'tx \<Rightarrow> 'dm \<Rightarrow> string \<Rightarrow> Secret \<Rightarrow>
   (Secret option \<times> error option) \<times> 'dm"
where
  "CreateSecret h tx dm uuid secret =
     (if s_Name secret = [] then
        ((None, Some (ErrBadRequest ''secret name required'')), dm)
      else if \<not> ValidateName h (s_Name secret) then
        ((None, Some (ErrBadRequest (''invalid secret name '' @ s_Name secret))), dm)
      else if s_Type secret \<noteq> SecretTypeInternal then
        ((None, Some (ErrBadRequest (''invalid secret type '' @ s_Type secret))), dm)
      else if s_Type secret = SecretTypeInternal \<and> length (s_Data secret) = 0 then
        ((None, Some (ErrBadRequest ''empty secret data'')), dm)
      else if par_Type (s_Parent secret) = [] then
        ((None, Some (ErrBadRequest ''secret parent type required'')), dm)
      else if par_ID (s_Parent secret) = [] then
        ((None, Some (ErrBadRequest ''secret parentid required'')), dm)
      else if par_Type (s_Parent secret) \<noteq> ConfigTypeProject
              \<and> par_Type (s_Parent secret) \<noteq> ConfigTypeProjectGroup then
        ((None, Some (ErrBadRequest (''invalid secret parent type ''
                                      @ par_Type (s_Parent secret)))), dm)
      else
        (let cgNames = [EncodeSha256Hex h (''secretname-'' @ s_Name secret)]
         in case CreateSecret_tx h tx cgNames secret of
              Inl err \<Rightarrow> ((None, Some err), dm)
            | Inr (cgt, secret') \<Rightarrow>
                (let secret'' = secret'\<lparr>s_ID := uuid\<rparr>
                 in case MarshalSecret h secret'' of
                      Inl err \<Rightarrow>
                        ((None, Some (ErrGeneric (''failed to marshal secret: '' @ Error err))), dm)
                    | Inr secretj \<Rightarrow>
                        (let actions = [\<lparr>a_ActionType = ActionTypePut,
                                         a_DataType = ConfigTypeSecret,
                                         a_ID = s_ID secret'', a_Data = secretj\<rparr>]
                         in case WriteWal h dm actions cgt of
                              (err, dm') \<Rightarrow> ((Some secret'', err), dm')))))"

text \<open>\<^verbatim>\<open>CreateVariable\<close> (src/unnamed/part_004), the same way.\<close>

definition CreateVariable_tx ::
  "('tx, 'cgt, 'dm) ActionHandler \<Rightarrow> 'tx \<Rightarrow> string list \<Rightarrow> Variable \<Rightarrow>
   error + ('cgt \<times> Variable)"
where
  "CreateVariable_tx h tx cgNames variable =
     (case GetChangeGroupsUpdateTokens h tx cgNames of
        Inl err \<Rightarrow> Inl err
      | Inr cgt \<Rightarrow>
          (case ResolveConfigID h tx (par_Type (v_Parent variable)) (par_ID (v_Parent variable)) of
             Inl err \<Rightarrow> Inl err
           | Inr parentID \<Rightarrow>
               (let variable' = variable\<lparr>v_Parent := (v_Parent variable)\<lparr>par_ID := parentID\<rparr>\<rparr>
                in case GetVariableByName h tx (par_ID (v_Parent variable')) (v_Name variable') of
                     Inl err \<Rightarrow> Inl err
                   | Inr (Some s) \<Rightarrow>
                       Inl (ErrBadRequest (''variable with name '' @ v_Name variable' @ '' for ''
                              @ par_Type (v_Parent variable') @ '' with id ''
                              @ par_ID (v_Parent variable') @ '' already exists''))
                   | Inr None \<Rightarrow> Inr (cgt, variable'))))"

definition CreateVariable ::
  "('tx, 'cgt, 'dm) ActionHandler \<Rightarrow> 'tx \<Rightarrow> 'dm \<Rightarrow> string \<Rightarrow> Variable \<Rightarrow>
   (Variable option \<times> error option) \<times> 'dm"
where
  "CreateVariable h tx dm uuid variable =
     (if v_Name variable = [] then
        ((None, Some (ErrBadRequest ''variable name required'')), dm)
      else if \<not> ValidateName h (v_Name variable) then
        ((None, Some (ErrBadRequest (''invalid variable name '' @ v_Name variable))), dm)
      else if length (v_Values variable) = 0 then
        ((None, Some (ErrBadRequest ''variable values required'')), dm)
      else if par_Type (v_Parent variable) = [] then
        ((None, Some (ErrBadRequest ''variable parent type required'')), dm)
      else if par_ID (v_Parent variable) = [] then
        ((None, Some (ErrBadRequest ''variable parent id required'')), dm)
      else if par_Type (v_Parent variable) \<noteq> ConfigTypeProject
              \<and> par_Type (v_Parent variable) \<noteq> ConfigTypeProjectGroup then
        ((None, Some (ErrBadRequest (''invalid variable parent type ''
                                      @ par_Type (v_Parent variable)))), dm)
      else
        (let cgNames = [EncodeSha256Hex h (''variablename-'' @ v_Name variable)]
         in case CreateVariable_tx h tx cgNames variable of
              Inl err \<Rightarrow> ((None, Some err), dm)
            | Inr (cgt, variable') \<Rightarrow>
                (let variable'' = variable'\<lparr>v_ID := uuid\<rparr>
                 in case MarshalVariable h variable'' of
                      Inl err \<Rightarrow>
                        ((None, Some (ErrGeneric (''failed to marshal variable: '' @ Error err))), dm)
                    | Inr variablej \<Rightarrow>
                        (let actions = [\<lparr>a_ActionType = ActionTypePut,
                                         a_DataType = ConfigTypeVariable,
                                         a_ID = v_ID variable'', a_Data = variablej\<rparr>]
                         in case WriteWal h dm actions cgt of
                              (err, dm') \<Rightarrow> ((Some variable'', err), dm')))))"

section \<open>The run scheduler\<close>

text \<open>
  Modelled from the spec: the run, the run config and their tasks, whose declarations in
  package \<^verbatim>\<open>runservice/types\<close> are not among the sources (spec, section 3; the tests in
  src/unnamed/part_005 build them), with the fields the two passes of the scheduler read
  and write. \<^verbatim>\<open>Run.RunTasks\<close> and \<^verbatim>\<open>RunConfig.Tasks\<close> are Go maps from task id to
  task; the model keeps them as association lists, read with \<open>map_of\<close>, because the
  passes also enumerate them. An empty list of conditions is an unspecified one.
\<close>

datatype RunTaskStatus =
    RunTaskStatusNotStarted
  | RunTaskStatusSkipped
  | RunTaskStatusWaitingApproval
  | RunTaskStatusRunning
  | RunTaskStatusSuccess
  | RunTaskStatusFailed
  | RunTaskStatusStopped

datatype DependCondition = on_success | on_failure | on_skipped

record RunConfigTaskDepend =
  dep_TaskID :: string
  dep_Conditions :: "DependCondition list"

record RunConfigTask =
  rct_ID :: string
  rct_Name :: string
  rct_Depends :: "RunConfigTaskDepend list"
  rct_Skip :: bool
  rct_NeedsApproval :: bool

record RunTask =
  rt_ID :: string
  rt_Status :: RunTaskStatus
  rt_Approved :: bool

record RunConfig =
  rc_Tasks :: "(string \<times> RunConfigTask) list"

record Run =
  r_RunTasks :: "(string \<times> RunTask) list"

text \<open>
  Modelled from the spec: the terminal statuses. Spec, section 3: they are success,
  failed, skipped and stopped.
\<close>

fun terminal :: "RunTaskStatus \<Rightarrow> bool" where
  "terminal RunTaskStatusSuccess = True"
| "terminal RunTaskStatusFailed = True"
| "terminal RunTaskStatusSkipped = True"
| "terminal RunTaskStatusStopped = True"
| "terminal st = False"

text \<open>
  Modelled from the spec: the condition a terminal status satisfies (spec, section 3:
  the conditions are on_success, on_failure and on_skipped); a stopped dependency
  satisfies none. The conditions of a dependency default to on_success when unspecified
  (spec, section 4.3).
\<close>

fun status_condition :: "RunTaskStatus \<Rightarrow> DependCondition option" where
  "status_condition RunTaskStatusSuccess = Some on_success"
| "status_condition RunTaskStatusFailed = Some on_failure"
| "status_condition RunTaskStatusSkipped = Some on_skipped"
| "status_condition st = None"

definition depend_conditions :: "RunConfigTaskDepend \<Rightarrow> DependCondition list" where
  "depend_conditions d = (if dep_Conditions d = [] then [on_success] else dep_Conditions d)"

definition task_status :: "Run \<Rightarrow> string \<Rightarrow> RunTaskStatus option" where
  "task_status r taskID = map_option rt_Status (map_of (r_RunTasks r) taskID)"

text \<open>
  Modelled from the spec: "the dependency is in a terminal status" and "its status is in
  the dependency's conditions". A dependency on a task the run does not have is neither
  terminal nor matched; the invariants of the spec (section 3) exclude it.
\<close>

definition dep_terminal :: "Run \<Rightarrow> RunConfigTaskDepend \<Rightarrow> bool" where
  "dep_terminal r d =
     (case task_status r (dep_TaskID d) of None \<Rightarrow> False | Some st \<Rightarrow> terminal st)"

definition dep_matches :: "Run \<Rightarrow> RunConfigTaskDepend \<Rightarrow> bool" where
  "dep_matches r d =
     (case task_status r (dep_TaskID d) of
        None \<Rightarrow> False
      | Some st \<Rightarrow>
          (case status_condition st of
             None \<Rightarrow> False
           | Some c \<Rightarrow> c \<in> set (depend_conditions d)))"

text \<open>
  Modelled from the spec: the assignment \<^verbatim>\<open>t.Status = st\<close> to the task stored under
  \<open>taskID\<close>.
\<close>

definition set_status :: "Run \<Rightarrow> string \<Rightarrow> RunTaskStatus \<Rightarrow> Run" where
  "set_status r taskID st =
     r\<lparr>r_RunTasks :=
         map (\<lambda>(k, t). if k = taskID then (k, t\<lparr>rt_Status := st\<rparr>) else (k, t)) (r_RunTasks r)\<rparr>"

subsection \<open>advanceRunTasks\<close>

text \<open>
  Modelled from the spec: the topological order in which \<^verbatim>\<open>advanceRunTasks\<close> visits the
  tasks of the run config (spec, section 4.3 (a)); how the code computes it is not among
  the sources. In every round each pending task
  whose dependencies are all placed is placed after them; there are as many rounds as
  tasks. A task on a dependency cycle, or with a dependency the config does not have, is
  never placed; \<open>is_dag\<close> says that every task is placed, which is the invariant of the
  spec that the dependencies are closed and acyclic.
\<close>

fun topo_round ::
  "(string \<times> RunConfigTask) list \<Rightarrow> (string \<times> RunConfigTask) list \<Rightarrow>
   (string \<times> RunConfigTask) list \<times> (string \<times> RunConfigTask) list"
where
  "topo_round placed [] = (placed, [])"
| "topo_round placed (p # ps) =
     (if list_all (\<lambda>d. dep_TaskID d \<in> set (map fst placed)) (rct_Depends (snd p))
      then topo_round (placed @ [p]) ps
      else (case topo_round placed ps of (placed', rest) \<Rightarrow> (placed', p # rest)))"

fun topo_rounds ::
  "nat \<Rightarrow> (string \<times> RunConfigTask) list \<Rightarrow> (string \<times> RunConfigTask) list \<Rightarrow>
   (string \<times> RunConfigTask) list"
where
  "topo_rounds 0 placed pending = placed"
| "topo_rounds (Suc n) placed pending =
     (case topo_round placed pending of (placed', rest) \<Rightarrow> topo_rounds n placed' rest)"

definition topo_order :: "RunConfig \<Rightarrow> (string \<times> RunConfigTask) list" where
  "topo_order rc = topo_rounds (length (rc_Tasks rc)) [] (rc_Tasks rc)"

definition is_dag :: "RunConfig \<Rightarrow> bool" where
  "is_dag rc = (length (topo_order rc) = length (rc_Tasks rc))"

text \<open>
  Modelled from the spec: what a topological order is. A list of tasks is in dependency
  order when every task comes after the tasks it depends on; \<open>seen\<close> are the ids of
  the tasks before the list.
\<close>

fun dep_ordered :: "string list \<Rightarrow> (string \<times> RunConfigTask) list \<Rightarrow> bool" where
  "dep_ordered seen [] = True"
| "dep_ordered seen (p # ps) =
     (list_all (\<lambda>d. dep_TaskID d \<in> set seen) (rct_Depends (snd p))
      \<and> dep_ordered (seen @ [fst p]) ps)"

text \<open>
  Modelled from the spec: \<^verbatim>\<open>advanceRunTasks\<close> is called by the test
  \<^verbatim>\<open>TestAdvanceRunTasks\<close> (src/unnamed/part_005) and its body is not among the sources.
  Spec, section 4.3 (a): for each task \<open>t\<close> in topological order, if \<open>t.Status\<close> is
  terminal, skip; if every dependency of \<open>t\<close> is terminal and each dependency's status
  does not match any of its declared conditions, then set \<open>t.Status\<close> to skipped (when all
  dependencies are skipped, and otherwise as well); else leave \<open>t\<close> as it is.
  Two points come from the test of the source: its case "test top level task not started"
  leaves every task without dependencies not started, so the rule is for a task that has
  a dependency; and its case "not set to skipped when not all parent status is skipped"
  has dependencies without conditions, one skipped and one successful, and leaves the
  task, so the conditions of a dependency are the default on_success when unspecified.
\<close>

definition should_skip :: "Run \<Rightarrow> RunConfigTask \<Rightarrow> bool" where
  "should_skip r ct =
     (rct_Depends ct \<noteq> []
      \<and> list_all (dep_terminal r) (rct_Depends ct)
      \<and> list_all (\<lambda>d. \<not> dep_matches r d) (rct_Depends ct))"

definition advance_task :: "Run \<Rightarrow> string \<times> RunConfigTask \<Rightarrow> Run" where
  "advance_task r p =
     (case task_status r (fst p) of
        None \<Rightarrow> r
      | Some st \<Rightarrow>
          (if terminal st then r
           else if should_skip r (snd p) then
             (if list_all (\<lambda>d. task_status r (dep_TaskID d) = Some RunTaskStatusSkipped)
                   (rct_Depends (snd p))
              then set_status r (fst p) RunTaskStatusSkipped
              else set_status r (fst p) RunTaskStatusSkipped)
           else r))"

definition advanceRunTasks :: "Run \<Rightarrow> RunConfig \<Rightarrow> Run" where
  "advanceRunTasks r rc = foldl advance_task r (topo_order rc)"

subsection \<open>getTasksToRun\<close>

text \<open>
  Modelled from the spec: the four conditions under which \<^verbatim>\<open>getTasksToRun\<close> returns a
  task (spec, section 4.3 (b)): its status
  is not started; its run config task has \<open>Skip\<close> false; every dependency is in a terminal
  status that is in the dependency's conditions; and if the run config task needs an
  approval then the task is approved.
\<close>

definition deps_satisfied :: "Run \<Rightarrow> RunConfigTask \<Rightarrow> bool" where
  "deps_satisfied r ct =
     list_all (\<lambda>d. dep_terminal r d \<and> dep_matches r d) (rct_Depends ct)"

definition eligible :: "Run \<Rightarrow> RunConfig \<Rightarrow> RunTask \<Rightarrow> bool" where
  "eligible r rc t =
     (rt_Status t = RunTaskStatusNotStarted
      \<and> (case map_of (rc_Tasks rc) (rt_ID t) of
           None \<Rightarrow> False
         | Some ct \<Rightarrow>
             \<not> rct_Skip ct \<and> deps_satisfied r ct \<and> (rct_NeedsApproval ct \<longrightarrow> rt_Approved t)))"

text \<open>
  Modelled from the spec: \<^verbatim>\<open>getTasksToRun\<close> is called by the test
  \<^verbatim>\<open>TestGetTasksToRun\<close> (src/unnamed/part_005) and its body is not among the sources. The
  model is a loop over the tasks of the run that collects the tasks to return and, as
  the spec says for a task that only lacks the approval, moves that task to waiting
  approval instead of returning it. A task whose id the run config does not have is not
  returned; the invariants of the spec exclude it. The result is the list of returned
  tasks and the run after the pass.
\<close>

definition getTasksToRun_step ::
  "RunConfig \<Rightarrow> RunTask list \<times> Run \<Rightarrow> string \<times> RunTask \<Rightarrow> RunTask list \<times> Run"
where
  "getTasksToRun_step rc acc p =
     (let tasksToRun = fst acc; r = snd acc; t = snd p
      in if rt_Status t \<noteq> RunTaskStatusNotStarted then (tasksToRun, r)
         else (case map_of (rc_Tasks rc) (rt_ID t) of
                 None \<Rightarrow> (tasksToRun, r)
               | Some ct \<Rightarrow>
                   (if rct_Skip ct then (tasksToRun, r)
                    else if deps_satisfied r ct then
                      (if rct_NeedsApproval ct \<and> \<not> rt_Approved t
                       then (tasksToRun, set_status r (fst p) RunTaskStatusWaitingApproval)
                       else (tasksToRun @ [t], r))
                    else (tasksToRun, r))))"

definition getTasksToRun :: "Run \<Rightarrow> RunConfig \<Rightarrow> RunTask list \<times> Run" where
  "getTasksToRun r rc = foldl (getTasksToRun_step rc) ([], r) (r_RunTasks r)"

section \<open>Sample inputs\<close>

text \<open>A merge request hook of a closed merge request, and a decoder that yields it.\<close>

definition closed_pr_hook :: pullRequestHook where
  "closed_pr_hook =
     \<lparr>prh_User = \<lparr>u_Name = ''Ann'', u_Username = ''ann''\<rparr>,
      prh_ObjectAttributes =
        \<lparr>oa_Iid = 7, oa_LastCommit = \<lparr>lc_ID = ''c0ffee'', lc_URL = ''http://git/c/c0ffee''\<rparr>,
         oa_SourceBranch = ''fix'', oa_Title = ''Fix it'', oa_URL = ''http://git/mr/7'',
         oa_State = ''closed'', oa_Action = ''close''\<rparr>,
      prh_Project = \<lparr>p_PathWithNamespace = ''org/repo'', p_WebURL = ''http://git/org/repo''\<rparr>\<rparr>"

definition sample_parsePullRequest :: "string \<Rightarrow> error + pullRequestHook" where
  "sample_parsePullRequest payload =
     (if payload = ''closed-mr'' then Inr closed_pr_hook
      else Inl (ErrGeneric ''unexpected end of JSON input''))"

text \<open>A tag push hook of a tag deletion: no commits.\<close>

definition tag_delete_hook :: pushHook where
  "tag_delete_hook =
     \<lparr>ph_UserName = ''Ann'', ph_UserUsername = ''ann'', ph_After = ''0000000'',
      ph_Ref = ''refs/tags/v1'', ph_Commits = [],
      ph_Project = \<lparr>p_PathWithNamespace = ''org/repo'', p_WebURL = ''http://git/org/repo''\<rparr>\<rparr>"

definition sample_parsePush :: "string \<Rightarrow> error + pushHook" where
  "sample_parsePush payload =
     (if payload = ''tag-delete'' then Inr tag_delete_hook
      else Inl (ErrGeneric ''unexpected end of JSON input''))"

text \<open>
  A handler over a read transaction that holds the stored secrets and variables, with a
  write-ahead log that appends every batch of actions.
\<close>

definition sample_handler ::
  "(Secret list \<times> Variable list, string list, Action list list) ActionHandler"
where
  "sample_handler =
     \<lparr>ValidateName = (\<lambda>n. list_all (\<lambda>c. c \<noteq> CHR '' '') n),
      EncodeSha256Hex = (\<lambda>x. x),
      GetChangeGroupsUpdateTokens = (\<lambda>tx names. Inr names),
      ResolveConfigID = (\<lambda>tx t ref. Inr ref),
      GetSecretByName = (\<lambda>tx pid name.
         Inr (find (\<lambda>x. par_ID (s_Parent x) = pid \<and> s_Name x = name) (fst tx))),
      GetVariableByName = (\<lambda>tx pid name.
         Inr (find (\<lambda>x. par_ID (v_Parent x) = pid \<and> v_Name x = name) (snd tx))),
      MarshalSecret = (\<lambda>x. Inr (s_Name x)),
      MarshalVariable = (\<lambda>x. Inr (v_Name x)),
      WriteWal = (\<lambda>dm actions cgt. (None, dm @ [actions]))\<rparr>"

definition sample_secret :: Secret where
  "sample_secret =
     \<lparr>s_ID = ''id1'', s_Name = ''secret01'', s_Type = ''internal'',
      s_Data = [(''k'', ''v'')],
      s_Parent = \<lparr>par_Type = ''project'', par_ID = ''p1'', par_Path = ''org/o1/p1''\<rparr>\<rparr>"

definition sample_variable :: Variable where
  "sample_variable =
     \<lparr>v_ID = ''id2'', v_Name = ''var01'',
      v_Values = [\<lparr>vv_SecretName = ''secret01'', vv_SecretVar = ''k''\<rparr>],
      v_Parent = \<lparr>par_Type = ''project'', par_ID = ''p1'', par_Path = ''org/o1/p1''\<rparr>\<rparr>"

definition sample_tx :: "Secret list \<times> Variable list" where
  "sample_tx = ([sample_secret], [sample_variable])"

text \<open>The same handler when the read of the change group tokens fails.\<close>

definition sample_handler_kvdown ::
  "(Secret list \<times> Variable list, string list, Action list list) ActionHandler"
where
  "sample_handler_kvdown =
     sample_handler\<lparr>GetChangeGroupsUpdateTokens := (\<lambda>tx names. Inl (ErrGeneric ''kv down''))\<rparr>"

text \<open>
  The inputs of \<^verbatim>\<open>TestFilterOverridenVariables\<close> and
  \<^verbatim>\<open>TestGetVarValueMatchingSecret\<close> (src/unnamed/part_001): variables and secrets with
  a name and a parent path, every other field at its zero value.
\<close>

definition mk_variable :: "string \<Rightarrow> string \<Rightarrow> Variable" where
  "mk_variable name path =
     \<lparr>v_ID = [], v_Name = name, v_Values = [],
      v_Parent = \<lparr>par_Type = [], par_ID = [], par_Path = path\<rparr>\<rparr>"

definition mk_secret :: "string \<Rightarrow> string \<Rightarrow> Secret" where
  "mk_secret name path =
     \<lparr>s_ID = [], s_Name = name, s_Type = [], s_Data = [],
      s_Parent = \<lparr>par_Type = [], par_ID = [], par_Path = path\<rparr>\<rparr>"

definition test_variables :: "Variable list" where
  "test_variables =
     [mk_variable ''var04'' ''org/org01/projectgroup02/projectgroup03/project02'',
      mk_variable ''var03'' ''org/org01/projectgroup01/project01'',
      mk_variable ''var02'' ''org/org01/projectgroup01/project01'',
      mk_variable ''var02'' ''org/org01/projectgroup01'',
      mk_variable ''var01'' ''org/org01/projectgroup01'',
      mk_variable ''var01'' ''org/org01'']"

definition test_variables_out :: "Variable list" where
  "test_variables_out =
     [mk_variable ''var04'' ''org/org01/projectgroup02/projectgroup03/project02'',
      mk_variable ''var03'' ''org/org01/projectgroup01/project01'',
      mk_variable ''var02'' ''org/org01/projectgroup01/project01'',
      mk_variable ''var01'' ''org/org01/projectgroup01'']"

definition test_varValue :: VariableValue where
  "test_varValue = \<lparr>vv_SecretName = ''secret01'', vv_SecretVar = ''secretvar01''\<rparr>"

definition test_varParentPath :: string where
  "test_varParentPath = ''org/org01/projectgroup01/projectgroup02''"

definition test_secrets :: "Secret list" where
  "test_secrets =
     [mk_secret ''secret01'' ''org/org01/projectgroup01/projectgroup02/project01'',
      mk_secret ''secret01'' ''org/org01/projectgroup01/projectgroup02'',
      mk_secret ''secret01'' ''org/org01/projectgroup01'']"

text \<open>
  The run config and the runs of \<^verbatim>\<open>TestAdvanceRunTasks\<close> and \<^verbatim>\<open>TestGetTasksToRun\<close>
  (src/unnamed/part_005): five tasks, task02 depends on task01 and task05 on task03 and
  task04, no conditions. \<open>test_run\<close> takes the statuses of the five tasks;
  \<open>test_rc_task01\<close> changes the run config task of task01.
\<close>

definition mk_task :: "string \<Rightarrow> string list \<Rightarrow> string \<times> RunConfigTask" where
  "mk_task name deps =
     (name, \<lparr>rct_ID = name, rct_Name = name,
             rct_Depends = map (\<lambda>d. \<lparr>dep_TaskID = d, dep_Conditions = []\<rparr>) deps,
             rct_Skip = False, rct_NeedsApproval = False\<rparr>)"

definition mk_runtask :: "string \<Rightarrow> RunTaskStatus \<Rightarrow> string \<times> RunTask" where
  "mk_runtask name st = (name, \<lparr>rt_ID = name, rt_Status = st, rt_Approved = False\<rparr>)"

definition test_rc :: RunConfig where
  "test_rc = \<lparr>rc_Tasks =
     [mk_task ''task01'' [], mk_task ''task02'' [''task01''], mk_task ''task03'' [],
      mk_task ''task04'' [], mk_task ''task05'' [''task03'', ''task04'']]\<rparr>"

definition test_rc_task01 :: "(RunConfigTask \<Rightarrow> RunConfigTask) \<Rightarrow> RunConfig" where
  "test_rc_task01 f = \<lparr>rc_Tasks =
     map (\<lambda>(k, ct). if k = ''task01'' then (k, f ct) else (k, ct)) (rc_Tasks test_rc)\<rparr>"

definition test_run :: "RunTaskStatus list \<Rightarrow> Run" where
  "test_run sts = \<lparr>r_RunTasks =
     map (\<lambda>(n, st). mk_runtask n st)
       (zip [''task01'', ''task02'', ''task03'', ''task04'', ''task05''] sts)\<rparr>"

definition all_not_started :: "RunTaskStatus list" where
  "all_not_started =
     [RunTaskStatusNotStarted, RunTaskStatusNotStarted, RunTaskStatusNotStarted,
      RunTaskStatusNotStarted, RunTaskStatusNotStarted]"

definition test_run_approved01 :: Run where
  "test_run_approved01 = \<lparr>r_RunTasks =
     map (\<lambda>(k, t). if k = ''task01'' then (k, t\<lparr>rt_Approved := True\<rparr>) else (k, t))
       (r_RunTasks (test_run all_not_started))\<rparr>"

text \<open>A task that depends on a skipped task under the condition on_skipped.\<close>

definition skip_rc :: RunConfig where
  "skip_rc = \<lparr>rc_Tasks =
     [mk_task ''task01'' [],
      (''task02'', \<lparr>rct_ID = ''task02'', rct_Name = ''task02'',
                    rct_Depends = [\<lparr>dep_TaskID = ''task01'', dep_Conditions = [on_skipped]\<rparr>],
                    rct_Skip = False, rct_NeedsApproval = False\<rparr>)]\<rparr>"

definition skip_run :: Run where
  "skip_run = \<lparr>r_RunTasks =
     [mk_runtask ''task01'' RunTaskStatusSkipped, mk_runtask ''task02'' RunTaskStatusNotStarted]\<rparr>"

section \<open>Theorems\<close>

subsection \<open>HTTP status of an error\<close>

text \<open>
  C6, as stated, fails for the gateway's \<^verbatim>\<open>httpError\<close>: on a fresh response writer a
  NotFound error gets the status 500 and an empty message, not 404.
\<close>

theorem C6_gateway_notfound_is_500:
  "httpError_gw \<lparr>rw_status = None, rw_body = []\<rparr> (Some (ErrNotFound ''user not found''))
     = (\<lparr>rw_status = Some 500, rw_body = [CHR 0x0A]\<rparr>, True)"
  by (simp add: httpError_gw_def http_Error_def Write_def WriteHeader_def
        StatusInternalServerError_def)

text \<open>
  C6, amended. On a response writer whose header is not yet written: the configstore's
  \<^verbatim>\<open>httpError\<close> answers a BadRequest error with 400 and a NotFound error with 404, each
  with the marshalled error message, and every other error with 500 and the marshalled
  message "internal server error", which does not depend on the error; the gateway's
  \<^verbatim>\<open>httpError\<close> answers a BadRequest error with 400 and its message, and every other
  error, NotFound included, with 500 and an empty message.
\<close>

theorem C6_httpError_status:
  assumes "rw_status w = None"
  shows "(\<forall>m j. marshal \<lparr>er_Message = m\<rparr> = Inr j \<longrightarrow>
            httpError_cs marshal w (Some (ErrBadRequest m))
              = (w\<lparr>rw_status := Some 400, rw_body := rw_body w @ j\<rparr>, True))
       \<and> (\<forall>m j. marshal \<lparr>er_Message = m\<rparr> = Inr j \<longrightarrow>
            httpError_cs marshal w (Some (ErrNotFound m))
              = (w\<lparr>rw_status := Some 404, rw_body := rw_body w @ j\<rparr>, True))
       \<and> (\<forall>e j. \<not> IsErrBadRequest e \<and> \<not> IsErrNotFound e
               \<and> marshal \<lparr>er_Message = ''internal server error''\<rparr> = Inr j \<longrightarrow>
            httpError_cs marshal w (Some e)
              = (w\<lparr>rw_status := Some 500, rw_body := rw_body w @ j\<rparr>, True))
       \<and> (\<forall>m. httpError_gw w (Some (ErrBadRequest m))
              = (w\<lparr>rw_status := Some 400, rw_body := rw_body w @ m @ [CHR 0x0A]\<rparr>, True))
       \<and> (\<forall>e. \<not> IsErrBadRequest e \<longrightarrow>
            httpError_gw w (Some e)
              = (w\<lparr>rw_status := Some 500, rw_body := rw_body w @ [CHR 0x0A]\<rparr>, True))"
  using assms
  by (simp add: httpError_cs_def httpError_gw_def ErrorResponseFromError_def http_Error_def
        Write_def WriteHeader_def StatusBadRequest_def StatusNotFound_def
        StatusInternalServerError_def)

theorem C6_httpError_status_witness:
  "httpError_cs (\<lambda>r. Inr (er_Message r)) \<lparr>rw_status = None, rw_body = []\<rparr>
       (Some (ErrNotFound ''no such user''))
     = (\<lparr>rw_status = Some 404, rw_body = ''no such user''\<rparr>, True)
   \<and> httpError_cs (\<lambda>r. Inr (er_Message r)) \<lparr>rw_status = None, rw_body = []\<rparr>
       (Some (ErrGeneric ''disk full''))
     = (\<lparr>rw_status = Some 500, rw_body = ''internal server error''\<rparr>, True)
   \<and> httpError_gw \<lparr>rw_status = None, rw_body = []\<rparr> (Some (ErrBadRequest ''bad limit''))
     = (\<lparr>rw_status = Some 400, rw_body = ''bad limit'' @ [CHR 0x0A]\<rparr>, True)
   \<and> httpError_gw \<lparr>rw_status = None, rw_body = []\<rparr> (Some (ErrNotFound ''no such user''))
     = (\<lparr>rw_status = Some 500, rw_body = [CHR 0x0A]\<rparr>, True)"
  using C6_httpError_status [of "\<lparr>rw_status = None, rw_body = []\<rparr>" "\<lambda>r. Inr (er_Message r)"]
  by simp

subsection \<open>Webhooks\<close>

text \<open>
  C7. Whenever the payload of a merge request hook decodes, \<^verbatim>\<open>parsePullRequestHook\<close>
  returns webhook data, never null and never an error, and the data is the same whatever
  the state and the action of the merge request are.
\<close>

theorem C7_parsePullRequestHook_never_null:
  assumes "parsePullRequest payload = Inr prhook"
  shows "parsePullRequestHook parsePullRequest payload
           = Inr (Some (webhookDataFromPullRequest prhook))
       \<and> (\<forall>st ac. webhookDataFromPullRequest
              (prhook\<lparr>prh_ObjectAttributes :=
                        (prh_ObjectAttributes prhook)\<lparr>oa_State := st, oa_Action := ac\<rparr>\<rparr>)
           = webhookDataFromPullRequest prhook)"
  using assms by (simp add: parsePullRequestHook_def webhookDataFromPullRequest_def Let_def)

theorem C7_parsePullRequestHook_never_null_witness:
  "sample_parsePullRequest ''closed-mr'' = Inr closed_pr_hook
   \<and> oa_State (prh_ObjectAttributes closed_pr_hook) = ''closed''
   \<and> parsePullRequestHook sample_parsePullRequest ''closed-mr''
       = Inr (Some (webhookDataFromPullRequest closed_pr_hook))"
proof -
  have h: "sample_parsePullRequest ''closed-mr'' = Inr closed_pr_hook"
    by (simp add: sample_parsePullRequest_def)
  have s: "oa_State (prh_ObjectAttributes closed_pr_hook) = ''closed''"
    by (simp add: closed_pr_hook_def)
  show ?thesis
    using h s C7_parsePullRequestHook_never_null
      [where parsePullRequest = sample_parsePullRequest and payload = "''closed-mr''"
         and prhook = closed_pr_hook]
    by simp
qed

text \<open>
  C9. A push or tag push hook that decodes to an empty commit list makes
  \<^verbatim>\<open>parsePushHook\<close> return null webhook data and no error, also through the dispatch
  of \<^verbatim>\<open>parseWebhook\<close> on both event names.
\<close>

theorem C9_parsePushHook_no_commits:
  assumes "parsePush payload = Inr push" and "ph_Commits push = []"
  shows "parsePushHook parsePush payload = Inr None
       \<and> parseWebhook parsePush parsePullRequest hookPush payload = Inr None
       \<and> parseWebhook parsePush parsePullRequest hookTagPush payload = Inr None"
  using assms by (simp add: parsePushHook_def parseWebhook_def)

theorem C9_parsePushHook_no_commits_witness:
  "sample_parsePush ''tag-delete'' = Inr tag_delete_hook
   \<and> ph_Commits tag_delete_hook = []
   \<and> parsePushHook sample_parsePush ''tag-delete'' = Inr None
   \<and> parseWebhook sample_parsePush sample_parsePullRequest hookTagPush ''tag-delete'' = Inr None"
proof -
  have h: "sample_parsePush ''tag-delete'' = Inr tag_delete_hook"
    by (simp add: sample_parsePush_def)
  have c: "ph_Commits tag_delete_hook = []"
    by (simp add: tag_delete_hook_def)
  show ?thesis
    using h c C9_parsePushHook_no_commits
      [where parsePush = sample_parsePush and payload = "''tag-delete''"
         and push = tag_delete_hook and parsePullRequest = sample_parsePullRequest]
    by simp
qed

subsection \<open>The limit of the list endpoints\<close>




subsection \<open>Rejected creations write nothing\<close>

lemma CreateSecret_duplicate:
  assumes "GetChangeGroupsUpdateTokens h tx [EncodeSha256Hex h (''secretname-'' @ s_Name secret)]
             = Inr cgt"
    and "ResolveConfigID h tx (par_Type (s_Parent secret)) (par_ID (s_Parent secret))
           = Inr parentID"
    and "GetSecretByName h tx parentID (s_Name secret) = Inr (Some existing)"
  shows "\<exists>m. CreateSecret h tx dm uuid secret = ((None, Some (ErrBadRequest m)), dm)"
  using assms by (simp add: CreateSecret_def CreateSecret_tx_def Let_def)

lemma CreateSecret_invalid:
  assumes "s_Name secret = [] \<or> \<not> ValidateName h (s_Name secret) \<or> s_Data secret = []
           \<or> par_Type (s_Parent secret) = []
           \<or> (par_Type (s_Parent secret) \<noteq> ConfigTypeProject
               \<and> par_Type (s_Parent secret) \<noteq> ConfigTypeProjectGroup)"
  shows "\<exists>m. CreateSecret h tx dm uuid secret = ((None, Some (ErrBadRequest m)), dm)"
  using assms by (auto simp add: CreateSecret_def)

lemma CreateVariable_duplicate:
  assumes "GetChangeGroupsUpdateTokens h tx
             [EncodeSha256Hex h (''variablename-'' @ v_Name variable)] = Inr cgt"
    and "ResolveConfigID h tx (par_Type (v_Parent variable)) (par_ID (v_Parent variable))
           = Inr parentID"
    and "GetVariableByName h tx parentID (v_Name variable) = Inr (Some existing)"
  shows "\<exists>m. CreateVariable h tx dm uuid variable = ((None, Some (ErrBadRequest m)), dm)"
  using assms by (simp add: CreateVariable_def CreateVariable_tx_def Let_def)

lemma CreateVariable_invalid:
  assumes "v_Name variable = [] \<or> \<not> ValidateName h (v_Name variable) \<or> v_Values variable = []
           \<or> par_Type (v_Parent variable) = []
           \<or> (par_Type (v_Parent variable) \<noteq> ConfigTypeProject
               \<and> par_Type (v_Parent variable) \<noteq> ConfigTypeProjectGroup)"
  shows "\<exists>m. CreateVariable h tx dm uuid variable = ((None, Some (ErrBadRequest m)), dm)"
  using assms by (auto simp add: CreateVariable_def)

text \<open>Whenever a creation returns no entity, the persisted state is the one it started from.\<close>

lemma CreateSecret_none_unchanged:
  "fst (fst (CreateSecret h tx dm uuid secret)) = None \<Longrightarrow>
   snd (CreateSecret h tx dm uuid secret) = dm"
  by (auto simp add: CreateSecret_def Let_def split: sum.splits prod.splits if_splits)

lemma CreateVariable_none_unchanged:
  "fst (fst (CreateVariable h tx dm uuid variable)) = None \<Longrightarrow>
   snd (CreateVariable h tx dm uuid variable) = dm"
  by (auto simp add: CreateVariable_def Let_def split: sum.splits prod.splits if_splits)

lemma CreateSecret_duplicate_no_write:
  assumes "ResolveConfigID h tx (par_Type (s_Parent secret)) (par_ID (s_Parent secret))
             = Inr parentID"
    and "GetSecretByName h tx parentID (s_Name secret) = Inr (Some existing)"
  shows "fst (fst (CreateSecret h tx dm uuid secret)) = None
         \<and> snd (CreateSecret h tx dm uuid secret) = dm"
  using assms
  by (auto simp add: CreateSecret_def CreateSecret_tx_def Let_def split: sum.splits)

lemma CreateVariable_duplicate_no_write:
  assumes "ResolveConfigID h tx (par_Type (v_Parent variable)) (par_ID (v_Parent variable))
             = Inr parentID"
    and "GetVariableByName h tx parentID (v_Name variable) = Inr (Some existing)"
  shows "fst (fst (CreateVariable h tx dm uuid variable)) = None
         \<and> snd (CreateVariable h tx dm uuid variable) = dm"
  using assms
  by (auto simp add: CreateVariable_def CreateVariable_tx_def Let_def split: sum.splits)

text \<open>
  When \<^verbatim>\<open>CreateSecret\<close> returns a secret, it has called \<^verbatim>\<open>WriteWal\<close> once, with one
  put action and with the token that the read transaction captured for the change group
  named by \<^verbatim>\<open>EncodeSha256Hex("secretname-" + name)\<close>; the error and the state it
  returns are those of \<^verbatim>\<open>WriteWal\<close>.
\<close>

lemma CreateSecret_writes_with_captured_token:
  assumes "fst (fst (CreateSecret h tx dm uuid secret)) = Some s'"
  shows "\<exists>cgt secretj.
           GetChangeGroupsUpdateTokens h tx [EncodeSha256Hex h (''secretname-'' @ s_Name secret)]
             = Inr cgt
         \<and> CreateSecret h tx dm uuid secret
             = ((Some s',
                 fst (WriteWal h dm [\<lparr>a_ActionType = ActionTypePut, a_DataType = ConfigTypeSecret,
                                      a_ID = uuid, a_Data = secretj\<rparr>] cgt)),
                snd (WriteWal h dm [\<lparr>a_ActionType = ActionTypePut, a_DataType = ConfigTypeSecret,
                                      a_ID = uuid, a_Data = secretj\<rparr>] cgt))"
  using assms
  by (auto simp add: CreateSecret_def CreateSecret_tx_def Let_def case_prod_beta
           split: sum.splits if_splits option.splits)

text \<open>
  When the capture of the token fails, the call returns no entity and writes nothing; its
  error is a BadRequest error of the validation or the error of that read.
\<close>

lemma CreateSecret_token_failure:
  assumes "GetChangeGroupsUpdateTokens h tx [EncodeSha256Hex h (''secretname-'' @ s_Name secret)]
             = Inl err"
  shows "fst (fst (CreateSecret h tx dm uuid secret)) = None
         \<and> snd (CreateSecret h tx dm uuid secret) = dm
         \<and> (\<exists>e. snd (fst (CreateSecret h tx dm uuid secret)) = Some e
                \<and> (IsErrBadRequest e \<or> e = err))"
  using assms by (auto simp add: CreateSecret_def CreateSecret_tx_def Let_def)

lemma CreateVariable_token_failure:
  assumes "GetChangeGroupsUpdateTokens h tx
             [EncodeSha256Hex h (''variablename-'' @ v_Name variable)] = Inl err"
  shows "fst (fst (CreateVariable h tx dm uuid variable)) = None
         \<and> snd (CreateVariable h tx dm uuid variable) = dm
         \<and> (\<exists>e. snd (fst (CreateVariable h tx dm uuid variable)) = Some e
                \<and> (IsErrBadRequest e \<or> e = err))"
  using assms by (auto simp add: CreateVariable_def CreateVariable_tx_def Let_def)

text \<open>
  C5, as stated, fails when the read of the change group tokens fails: the closure reads
  the token before it looks for a duplicate, so with a secret (or a variable) of the
  same name stored under the same resolved parent id the call returns the error of that
  read, which is not a BadRequest error. Nothing is written.
\<close>

theorem C5_duplicate_token_failure_counterexample:
  "ResolveConfigID sample_handler_kvdown sample_tx (par_Type (s_Parent sample_secret))
       (par_ID (s_Parent sample_secret)) = Inr ''p1''
   \<and> GetSecretByName sample_handler_kvdown sample_tx ''p1'' (s_Name sample_secret)
       = Inr (Some sample_secret)
   \<and> CreateSecret sample_handler_kvdown sample_tx [] ''u6'' sample_secret
       = ((None, Some (ErrGeneric ''kv down'')), [])
   \<and> \<not> IsErrBadRequest (ErrGeneric ''kv down'')
   \<and> ResolveConfigID sample_handler_kvdown sample_tx (par_Type (v_Parent sample_variable))
       (par_ID (v_Parent sample_variable)) = Inr ''p1''
   \<and> GetVariableByName sample_handler_kvdown sample_tx ''p1'' (v_Name sample_variable)
       = Inr (Some sample_variable)
   \<and> CreateVariable sample_handler_kvdown sample_tx [] ''u7'' sample_variable
       = ((None, Some (ErrGeneric ''kv down'')), [])"
  by (simp add: sample_handler_kvdown_def sample_handler_def sample_tx_def sample_secret_def
        sample_variable_def CreateSecret_def CreateSecret_tx_def CreateVariable_def
        CreateVariable_tx_def SecretTypeInternal_def ConfigTypeProject_def
        ConfigTypeProjectGroup_def)


text \<open>
  C5, amended. When the read transaction captures the token, resolves the parent and
  finds an entity of the same name under the resolved parent id, \<^verbatim>\<open>CreateSecret\<close> and
  \<^verbatim>\<open>CreateVariable\<close> return no entity and a BadRequest error, and the persisted state
  is unchanged whatever \<^verbatim>\<open>WriteWal\<close> would do: it is not called. The same holds when
  the name is empty or invalid, the secret data or the variable values are empty, or the
  parent type is missing or neither project nor project group. For a duplicate, no entity
  is returned and the persisted state is unchanged also when the capture of the token
  fails; the error is then a BadRequest error of the validation or the error of that
  read.
\<close>

theorem C5_rejected_create_writes_nothing:
  "(GetChangeGroupsUpdateTokens h tx [EncodeSha256Hex h (''secretname-'' @ s_Name secret)]
        = Inr cgt
      \<and> ResolveConfigID h tx (par_Type (s_Parent secret)) (par_ID (s_Parent secret))
          = Inr parentID
      \<and> GetSecretByName h tx parentID (s_Name secret) = Inr (Some existing)
    \<longrightarrow> (\<exists>m. CreateSecret h tx dm uuid secret = ((None, Some (ErrBadRequest m)), dm)))
   \<and> (s_Name secret = [] \<or> \<not> ValidateName h (s_Name secret) \<or> s_Data secret = []
        \<or> par_Type (s_Parent secret) = []
        \<or> (par_Type (s_Parent secret) \<noteq> ConfigTypeProject
            \<and> par_Type (s_Parent secret) \<noteq> ConfigTypeProjectGroup)
    \<longrightarrow> (\<exists>m. CreateSecret h tx dm uuid secret = ((None, Some (ErrBadRequest m)), dm)))
   \<and> (GetChangeGroupsUpdateTokens h tx [EncodeSha256Hex h (''variablename-'' @ v_Name variable)]
        = Inr cgt'
      \<and> ResolveConfigID h tx (par_Type (v_Parent variable)) (par_ID (v_Parent variable))
          = Inr parentID'
      \<and> GetVariableByName h tx parentID' (v_Name variable) = Inr (Some existing')
    \<longrightarrow> (\<exists>m. CreateVariable h tx dm uuid variable = ((None, Some (ErrBadRequest m)), dm)))
   \<and> (v_Name variable = [] \<or> \<not> ValidateName h (v_Name variable) \<or> v_Values variable = []
        \<or> par_Type (v_Parent variable) = []
        \<or> (par_Type (v_Parent variable) \<noteq> ConfigTypeProject
            \<and> par_Type (v_Parent variable) \<noteq> ConfigTypeProjectGroup)
    \<longrightarrow> (\<exists>m. CreateVariable h tx dm uuid variable = ((None, Some (ErrBadRequest m)), dm)))
   \<and> (ResolveConfigID h tx (par_Type (s_Parent secret)) (par_ID (s_Parent secret))
          = Inr parentID
      \<and> GetSecretByName h tx parentID (s_Name secret) = Inr (Some existing)
    \<longrightarrow> fst (fst (CreateSecret h tx dm uuid secret)) = None
        \<and> snd (CreateSecret h tx dm uuid secret) = dm)
   \<and> (ResolveConfigID h tx (par_Type (v_Parent variable)) (par_ID (v_Parent variable))
          = Inr parentID'
      \<and> GetVariableByName h tx parentID' (v_Name variable) = Inr (Some existing')
    \<longrightarrow> fst (fst (CreateVariable h tx dm uuid variable)) = None
        \<and> snd (CreateVariable h tx dm uuid variable) = dm)
   \<and> (GetChangeGroupsUpdateTokens h tx [EncodeSha256Hex h (''secretname-'' @ s_Name secret)]
        = Inl err
    \<longrightarrow> fst (fst (CreateSecret h tx dm uuid secret)) = None
        \<and> snd (CreateSecret h tx dm uuid secret) = dm
        \<and> (\<exists>e. snd (fst (CreateSecret h tx dm uuid secret)) = Some e
               \<and> (IsErrBadRequest e \<or> e = err)))
   \<and> (GetChangeGroupsUpdateTokens h tx [EncodeSha256Hex h (''variablename-'' @ v_Name variable)]
        = Inl err'
    \<longrightarrow> fst (fst (CreateVariable h tx dm uuid variable)) = None
        \<and> snd (CreateVariable h tx dm uuid variable) = dm
        \<and> (\<exists>e. snd (fst (CreateVariable h tx dm uuid variable)) = Some e
               \<and> (IsErrBadRequest e \<or> e = err')))"
  using CreateSecret_duplicate [of h tx secret cgt parentID existing dm uuid]
    CreateSecret_invalid [of secret h tx dm uuid]
    CreateVariable_duplicate [of h tx variable cgt' parentID' existing' dm uuid]
    CreateVariable_invalid [of variable h tx dm uuid]
    CreateSecret_duplicate_no_write [of h tx secret parentID existing dm uuid]
    CreateVariable_duplicate_no_write [of h tx variable parentID' existing' dm uuid]
    CreateSecret_token_failure [of h tx secret err dm uuid]
    CreateVariable_token_failure [of h tx variable err' dm uuid]
  by blast

theorem C5_rejected_create_writes_nothing_witness:
  "(\<exists>m. CreateSecret sample_handler sample_tx [] ''u1'' sample_secret
          = ((None, Some (ErrBadRequest m)), []))
   \<and> (\<exists>m. CreateVariable sample_handler sample_tx [] ''u2'' sample_variable
          = ((None, Some (ErrBadRequest m)), []))
   \<and> (\<exists>m. CreateSecret sample_handler sample_tx [] ''u3'' (sample_secret\<lparr>s_Name := []\<rparr>)
          = ((None, Some (ErrBadRequest m)), []))
   \<and> (\<exists>m. CreateVariable sample_handler sample_tx [] ''u4'' (sample_variable\<lparr>v_Values := []\<rparr>)
          = ((None, Some (ErrBadRequest m)), []))
   \<and> fst (fst (CreateSecret sample_handler_kvdown sample_tx [] ''u5'' sample_secret)) = None
   \<and> snd (CreateSecret sample_handler_kvdown sample_tx [] ''u5'' sample_secret) = []"
proof -
  have s: "GetChangeGroupsUpdateTokens sample_handler sample_tx
             [EncodeSha256Hex sample_handler (''secretname-'' @ s_Name sample_secret)]
             = Inr [''secretname-secret01'']
           \<and> ResolveConfigID sample_handler sample_tx (par_Type (s_Parent sample_secret))
               (par_ID (s_Parent sample_secret)) = Inr ''p1''
           \<and> GetSecretByName sample_handler sample_tx ''p1'' (s_Name sample_secret)
               = Inr (Some sample_secret)"
    by (simp add: sample_handler_def sample_tx_def sample_secret_def)
  have v: "GetChangeGroupsUpdateTokens sample_handler sample_tx
             [EncodeSha256Hex sample_handler (''variablename-'' @ v_Name sample_variable)]
             = Inr [''variablename-var01'']
           \<and> ResolveConfigID sample_handler sample_tx (par_Type (v_Parent sample_variable))
               (par_ID (v_Parent sample_variable)) = Inr ''p1''
           \<and> GetVariableByName sample_handler sample_tx ''p1'' (v_Name sample_variable)
               = Inr (Some sample_variable)"
    by (simp add: sample_handler_def sample_tx_def sample_variable_def)
  have e: "s_Name (sample_secret\<lparr>s_Name := []\<rparr>) = []"
          "v_Values (sample_variable\<lparr>v_Values := []\<rparr>) = []"
    by simp_all
  note dup = C5_rejected_create_writes_nothing
        [where h = sample_handler and tx = sample_tx and dm = "[]"
           and secret = sample_secret and cgt = "[''secretname-secret01'']"
           and parentID = "''p1''" and existing = sample_secret
           and variable = sample_variable and cgt' = "[''variablename-var01'']"
           and parentID' = "''p1''" and existing' = sample_variable
           and err = "ErrGeneric []" and err' = "ErrGeneric []"]
  note inv = C5_rejected_create_writes_nothing
        [where h = sample_handler and tx = sample_tx and dm = "[]"
           and secret = "sample_secret\<lparr>s_Name := []\<rparr>" and cgt = "[]"
           and parentID = "[]" and existing = sample_secret
           and variable = "sample_variable\<lparr>v_Values := []\<rparr>" and cgt' = "[]"
           and parentID' = "[]" and existing' = sample_variable
           and err = "ErrGeneric []" and err' = "ErrGeneric []"]
  have a: "\<exists>m. CreateSecret sample_handler sample_tx [] ''u1'' sample_secret
          = ((None, Some (ErrBadRequest m)), [])"
    using s dup [of "''u1''"] by (elim conjE) (rule mp, assumption, simp)
  have b: "\<exists>m. CreateVariable sample_handler sample_tx [] ''u2'' sample_variable
          = ((None, Some (ErrBadRequest m)), [])"
    using v dup [of "''u2''"] by (elim conjE) (rule mp, assumption, simp)
  have c: "\<exists>m. CreateSecret sample_handler sample_tx [] ''u3'' (sample_secret\<lparr>s_Name := []\<rparr>)
          = ((None, Some (ErrBadRequest m)), [])"
    using e inv [of "''u3''"] by (elim conjE) (rule mp, assumption, simp)
  have d: "\<exists>m. CreateVariable sample_handler sample_tx [] ''u4'' (sample_variable\<lparr>v_Values := []\<rparr>)
          = ((None, Some (ErrBadRequest m)), [])"
    using e inv [of "''u4''"] by (elim conjE) (rule mp, assumption, simp)
  have k: "GetChangeGroupsUpdateTokens sample_handler_kvdown sample_tx
             [EncodeSha256Hex sample_handler_kvdown (''secretname-'' @ s_Name sample_secret)]
             = Inl (ErrGeneric ''kv down'')"
    by (simp add: sample_handler_kvdown_def)
  note kv = C5_rejected_create_writes_nothing
        [where h = sample_handler_kvdown and tx = sample_tx and dm = "[]"
           and secret = sample_secret and cgt = "[]"
           and parentID = "[]" and existing = sample_secret
           and variable = sample_variable and cgt' = "[]"
           and parentID' = "[]" and existing' = sample_variable
           and err = "ErrGeneric ''kv down''" and err' = "ErrGeneric ''kv down''"]
  have f: "fst (fst (CreateSecret sample_handler_kvdown sample_tx [] ''u5'' sample_secret)) = None
           \<and> snd (CreateSecret sample_handler_kvdown sample_tx [] ''u5'' sample_secret) = []
           \<and> (\<exists>e. snd (fst (CreateSecret sample_handler_kvdown sample_tx [] ''u5''
                                  sample_secret)) = Some e
                  \<and> (IsErrBadRequest e \<or> e = ErrGeneric ''kv down''))"
    using k kv [of "''u5''"] by (elim conjE) (rule mp, assumption, simp)
  show ?thesis
    using a b c d f by (intro conjI) simp_all
qed

subsection \<open>FilterOverridenVariables\<close>

lemma filter_seen_subseq: "subseq (filter_seen seen vs) vs"
  by (induction vs arbitrary: seen) auto

lemma filter_seen_names:
  "set (map v_Name (filter_seen seen vs)) = set (map v_Name vs) - set seen"
  by (induction vs arbitrary: seen) auto

lemma filter_seen_not_seen: "x \<in> set (filter_seen seen vs) \<Longrightarrow> v_Name x \<notin> set seen"
  using filter_seen_names [of seen vs] by auto

lemma filter_seen_distinct: "distinct (map v_Name (filter_seen seen vs))"
  by (induction vs arbitrary: seen) (auto dest: filter_seen_not_seen)

lemma filter_seen_id:
  "distinct (map v_Name vs) \<Longrightarrow> set (map v_Name vs) \<inter> set seen = {} \<Longrightarrow>
   filter_seen seen vs = vs"
  by (induction vs arbitrary: seen) auto

lemma first_occurrences_Cons:
  "first_occurrences seen (v # vs) =
     (if v_Name v \<in> set seen then map Suc (first_occurrences seen vs)
      else 0 # map Suc (first_occurrences (v_Name v # seen) vs))"
proof -
  have u: "[0..<length (v # vs)] = 0 # map Suc [0..<length vs]"
    by (simp add: upt_conv_Cons map_Suc_upt del: upt_Suc)
  show ?thesis
    unfolding first_occurrences_def u
    by (auto simp: filter_map comp_def intro!: filter_cong)
qed

lemma filter_seen_index:
  "filter_seen seen vs = map (\<lambda>i. vs ! i) (first_occurrences seen vs)"
proof (induction vs arbitrary: seen)
  case Nil
  show ?case by (simp add: first_occurrences_def)
next
  case (Cons v vs)
  show ?case by (simp add: first_occurrences_Cons Cons.IH comp_def)
qed

text \<open>The test of the source: six variables in, the four first occurrences out.\<close>

lemma TestFilterOverridenVariables:
  "FilterOverridenVariables [] = []"
  "FilterOverridenVariables test_variables = test_variables_out"
  by (simp_all add: FilterOverridenVariables_def test_variables_def test_variables_out_def
        mk_variable_def)

text \<open>
  C4. For every list of variables, sorted or not, the result of
  \<^verbatim>\<open>FilterOverridenVariables\<close> is a subsequence of the input; it is the input read at
  the positions of the first occurrences of the names, in order; its names are distinct
  and are all the names of the input; a list without a repeated name is returned as it
  is, and the empty list gives the empty list.
\<close>

theorem C4_FilterOverridenVariables_first_occurrences:
  "subseq (FilterOverridenVariables vs) vs
   \<and> FilterOverridenVariables vs = map (\<lambda>i. vs ! i) (first_occurrences [] vs)
   \<and> distinct (map v_Name (FilterOverridenVariables vs))
   \<and> set (map v_Name (FilterOverridenVariables vs)) = set (map v_Name vs)
   \<and> (distinct (map v_Name vs) \<longrightarrow> FilterOverridenVariables vs = vs)
   \<and> FilterOverridenVariables [] = []"
  unfolding FilterOverridenVariables_def
  using filter_seen_subseq [of "[]" vs] filter_seen_index [of "[]" vs]
    filter_seen_distinct [of "[]" vs] filter_seen_names [of "[]" vs]
    filter_seen_id [of vs "[]"]
  by simp

theorem C4_FilterOverridenVariables_first_occurrences_witness:
  "distinct (map v_Name test_variables_out)
   \<and> FilterOverridenVariables test_variables_out = test_variables_out
   \<and> subseq (FilterOverridenVariables test_variables) test_variables
   \<and> first_occurrences [] test_variables = [0, 1, 2, 4]"
proof -
  have d: "distinct (map v_Name test_variables_out)"
    by (simp add: test_variables_out_def mk_variable_def)
  have f: "first_occurrences [] test_variables = [0, 1, 2, 4]"
    by (simp add: first_occurrences_Cons test_variables_def mk_variable_def)
       (simp add: first_occurrences_def)
  have i: "FilterOverridenVariables test_variables_out = test_variables_out"
    using d C4_FilterOverridenVariables_first_occurrences [of test_variables_out] by blast
  have s: "subseq (FilterOverridenVariables test_variables) test_variables"
    using C4_FilterOverridenVariables_first_occurrences [of test_variables] by blast
  show ?thesis
    using d i s f by (intro conjI)
qed

subsection \<open>GetVarValueMatchingSecret\<close>

lemma HasPrefix_length: "HasPrefix s pre \<Longrightarrow> length pre \<le> length s"
  unfolding HasPrefix_def by (metis length_take min.cobounded1)

lemma is_ancestor_antisym: "is_ancestor P Q \<Longrightarrow> is_ancestor Q P \<Longrightarrow> P = Q"
  unfolding is_ancestor_def by (auto dest!: HasPrefix_length)

lemma not_strictly_below: "is_ancestor S P \<Longrightarrow> \<not> strictly_below S P"
  unfolding strictly_below_def by (auto dest: is_ancestor_antisym)

lemma deepest_None: "deepest best cs = None \<longleftrightarrow> best = None \<and> cs = []"
  by (induction best cs rule: deepest.induct) auto

lemma deepest_mem: "deepest best cs = Some r \<Longrightarrow> best = Some r \<or> r \<in> set cs"
  by (induction best cs rule: deepest.induct) (auto split: if_splits)

lemma deepest_max:
  "deepest best cs = Some r \<Longrightarrow>
     (\<forall>b. best = Some b \<longrightarrow>
        path_depth (par_Path (s_Parent b)) \<le> path_depth (par_Path (s_Parent r)))
   \<and> (\<forall>c\<in>set cs. path_depth (par_Path (s_Parent c)) \<le> path_depth (par_Path (s_Parent r)))"
  by (induction best cs rule: deepest.induct) (fastforce split: if_splits)+

lemma deepest_keeps:
  "\<forall>c\<in>set cs. path_depth (par_Path (s_Parent c)) \<le> path_depth (par_Path (s_Parent b)) \<Longrightarrow>
   deepest (Some b) cs = Some b"
  by (induction cs) auto

lemma find_as_filter:
  "List.find P xs = (case filter P xs of [] \<Rightarrow> None | x # ys \<Rightarrow> Some x)"
  by (induction xs) auto

lemma deepest_sorted:
  assumes "deepest_first cs"
  shows "deepest None cs = (case cs of [] \<Rightarrow> None | x # ys \<Rightarrow> Some x)"
  using assms by (cases cs) (auto simp: deepest_first_def intro: deepest_keeps)

lemma deepest_first_filter: "deepest_first ss \<Longrightarrow> deepest_first (filter P ss)"
  unfolding deepest_first_def by (rule sorted_wrt_filter)

text \<open>The cases of the test of the source.\<close>

lemma TestGetVarValueMatchingSecret:
  "GetVarValueMatchingSecret test_varValue ''org/org01/projectgroup01/project01'' [] = None"
  "GetVarValueMatchingSecret test_varValue test_varParentPath
     [mk_secret ''secret02'' ''org/org01/projectgroup01/projectgroup02''] = None"
  "GetVarValueMatchingSecret test_varValue test_varParentPath
     [mk_secret ''secret02'' ''org/org01/projectgroup01/projectgroup03''] = None"
  "GetVarValueMatchingSecret test_varValue test_varParentPath
     [mk_secret ''secret01'' ''org/org01/projectgroup01/projectgroup02/project01''] = None"
  "GetVarValueMatchingSecret test_varValue test_varParentPath
     [mk_secret ''secret01'' ''org/org01/projectgroup01/projectgroup02/project01'',
      mk_secret ''secret01'' ''org/org01/projectgroup01/projectgroup02'']
     = Some (mk_secret ''secret01'' ''org/org01/projectgroup01/projectgroup02'')"
  "GetVarValueMatchingSecret test_varValue test_varParentPath
     [mk_secret ''secret01'' ''org/org01/projectgroup01'']
     = Some (mk_secret ''secret01'' ''org/org01/projectgroup01'')"
  "GetVarValueMatchingSecret test_varValue test_varParentPath test_secrets
     = Some (mk_secret ''secret01'' ''org/org01/projectgroup01/projectgroup02'')"
  by (simp_all add: GetVarValueMatchingSecret_def test_secrets_def test_varValue_def
        test_varParentPath_def mk_secret_def candidate_def is_ancestor_def HasPrefix_def
        path_depth_def)

text \<open>
  C3. \<^verbatim>\<open>GetVarValueMatchingSecret\<close> returns null exactly when no secret of the list has
  the referenced name and a parent path that is an ancestor of or equal to the variable's
  parent path. A returned secret is in the list, has the referenced name, has such a
  parent path, is therefore not strictly below the variable's parent path, and no
  candidate of the list is deeper. On a list sorted deepest parent first, the result is
  the first candidate of the list.
\<close>

theorem C3_GetVarValueMatchingSecret_scope:
  "(GetVarValueMatchingSecret varValue varParentPath secrets = None
      \<longleftrightarrow> \<not> (\<exists>s\<in>set secrets. candidate varValue varParentPath s))
   \<and> (\<forall>r. GetVarValueMatchingSecret varValue varParentPath secrets = Some r \<longrightarrow>
          r \<in> set secrets
        \<and> s_Name r = vv_SecretName varValue
        \<and> is_ancestor (par_Path (s_Parent r)) varParentPath
        \<and> \<not> strictly_below (par_Path (s_Parent r)) varParentPath
        \<and> (\<forall>c\<in>set secrets. candidate varValue varParentPath c \<longrightarrow>
              path_depth (par_Path (s_Parent c)) \<le> path_depth (par_Path (s_Parent r))))
   \<and> (deepest_first secrets \<longrightarrow>
        GetVarValueMatchingSecret varValue varParentPath secrets
          = List.find (candidate varValue varParentPath) secrets)"
proof (intro conjI allI impI)
  show "GetVarValueMatchingSecret varValue varParentPath secrets = None
      \<longleftrightarrow> \<not> (\<exists>s\<in>set secrets. candidate varValue varParentPath s)"
    by (auto simp: GetVarValueMatchingSecret_def deepest_None filter_empty_conv)
next
  fix r assume r: "GetVarValueMatchingSecret varValue varParentPath secrets = Some r"
  then have m: "r \<in> set (filter (candidate varValue varParentPath) secrets)"
    unfolding GetVarValueMatchingSecret_def by (auto dest: deepest_mem)
  then show "r \<in> set secrets" by simp
  from m have c: "candidate varValue varParentPath r" by simp
  then show "s_Name r = vv_SecretName varValue" by (simp add: candidate_def)
  from c show a: "is_ancestor (par_Path (s_Parent r)) varParentPath"
    by (simp add: candidate_def)
  then show "\<not> strictly_below (par_Path (s_Parent r)) varParentPath"
    by (rule not_strictly_below)
  from r show "\<forall>c\<in>set secrets. candidate varValue varParentPath c \<longrightarrow>
              path_depth (par_Path (s_Parent c)) \<le> path_depth (par_Path (s_Parent r))"
    unfolding GetVarValueMatchingSecret_def by (auto dest!: deepest_max)
next
  assume "deepest_first secrets"
  then show "GetVarValueMatchingSecret varValue varParentPath secrets
          = List.find (candidate varValue varParentPath) secrets"
    by (simp add: GetVarValueMatchingSecret_def deepest_sorted deepest_first_filter
          find_as_filter)
qed

theorem C3_GetVarValueMatchingSecret_scope_witness:
  "deepest_first test_secrets
   \<and> GetVarValueMatchingSecret test_varValue test_varParentPath test_secrets
       = Some (mk_secret ''secret01'' ''org/org01/projectgroup01/projectgroup02'')
   \<and> GetVarValueMatchingSecret test_varValue test_varParentPath test_secrets
       = List.find (candidate test_varValue test_varParentPath) test_secrets
   \<and> mk_secret ''secret01'' ''org/org01/projectgroup01/projectgroup02'' \<in> set test_secrets
   \<and> \<not> strictly_below
         (par_Path (s_Parent (mk_secret ''secret01'' ''org/org01/projectgroup01/projectgroup02'')))
         test_varParentPath
   \<and> path_depth (par_Path (s_Parent (mk_secret ''secret01'' ''org/org01/projectgroup01'')))
       \<le> path_depth
            (par_Path (s_Parent (mk_secret ''secret01''
               ''org/org01/projectgroup01/projectgroup02'')))"
proof -
  note C = C3_GetVarValueMatchingSecret_scope
             [of test_varValue test_varParentPath test_secrets]
  have d: "deepest_first test_secrets"
    by (simp add: test_secrets_def mk_secret_def deepest_first_def path_depth_def)
  have r: "GetVarValueMatchingSecret test_varValue test_varParentPath test_secrets
             = Some (mk_secret ''secret01'' ''org/org01/projectgroup01/projectgroup02'')"
    by (rule TestGetVarValueMatchingSecret(7))
  have f: "GetVarValueMatchingSecret test_varValue test_varParentPath test_secrets
             = List.find (candidate test_varValue test_varParentPath) test_secrets"
    using C d by blast
  have m: "mk_secret ''secret01'' ''org/org01/projectgroup01/projectgroup02'' \<in> set test_secrets"
    using C r by blast
  have b: "\<not> strictly_below
         (par_Path (s_Parent (mk_secret ''secret01'' ''org/org01/projectgroup01/projectgroup02'')))
         test_varParentPath"
    using C r by blast
  have c: "mk_secret ''secret01'' ''org/org01/projectgroup01'' \<in> set test_secrets
           \<and> candidate test_varValue test_varParentPath
                 (mk_secret ''secret01'' ''org/org01/projectgroup01'')"
    by (simp add: test_secrets_def test_varValue_def test_varParentPath_def mk_secret_def
          candidate_def is_ancestor_def HasPrefix_def)
  have l: "path_depth (par_Path (s_Parent (mk_secret ''secret01'' ''org/org01/projectgroup01'')))
       \<le> path_depth
            (par_Path (s_Parent (mk_secret ''secret01''
               ''org/org01/projectgroup01/projectgroup02'')))"
    using C r c by blast
  show ?thesis
    using d r f m b l by (intro conjI)
qed

subsection \<open>getTasksToRun\<close>

lemma map_of_map_upd:
  "map_of (map (\<lambda>(k, t). if k = a then (k, f t) else (k, t)) xs) k'
     = (if k' = a then map_option f (map_of xs a) else map_of xs k')"
  by (induction xs) auto

lemma task_status_set_status:
  "task_status (set_status r a st) k
     = (if k = a then map_option (\<lambda>_. st) (task_status r a) else task_status r k)"
  unfolding task_status_def set_status_def
  by (simp add: map_of_map_upd option.map_comp comp_def)

lemma nonterminal_no_condition: "\<not> terminal st \<Longrightarrow> status_condition st = None"
  by (cases st) auto

lemma waiting_keeps_deps:
  assumes "\<forall>st. task_status r a = Some st \<longrightarrow> \<not> terminal st"
  shows "dep_terminal (set_status r a RunTaskStatusWaitingApproval) = dep_terminal r"
    and "dep_matches (set_status r a RunTaskStatusWaitingApproval) = dep_matches r"
proof -
  show "dep_terminal (set_status r a RunTaskStatusWaitingApproval) = dep_terminal r"
  proof
    fix d show "dep_terminal (set_status r a RunTaskStatusWaitingApproval) d = dep_terminal r d"
      using assms by (cases "task_status r a") (auto simp: dep_terminal_def task_status_set_status)
  qed
  show "dep_matches (set_status r a RunTaskStatusWaitingApproval) = dep_matches r"
  proof
    fix d show "dep_matches (set_status r a RunTaskStatusWaitingApproval) d = dep_matches r d"
      using assms
      by (cases "task_status r a")
         (auto simp: dep_matches_def task_status_set_status nonterminal_no_condition)
  qed
qed

lemma deps_satisfied_cong:
  "dep_terminal r' = dep_terminal r \<Longrightarrow> dep_matches r' = dep_matches r \<Longrightarrow>
   deps_satisfied r' ct = deps_satisfied r ct"
  by (simp add: deps_satisfied_def)

lemma getTasksToRun_fold:
  assumes "dep_terminal r' = dep_terminal r" and "dep_matches r' = dep_matches r"
    and "\<forall>p\<in>set xs. task_status r (fst p) = Some (rt_Status (snd p))"
  shows "fst (foldl (getTasksToRun_step rc) (acc, r') xs)
           = acc @ filter (eligible r rc) (map snd xs)"
  using assms
proof (induction xs arbitrary: acc r')
  case Nil
  then show ?case by simp
next
  case (Cons p xs)
  obtain acc1 r1 where s: "getTasksToRun_step rc (acc, r') p = (acc1, r1)"
    by (cases "getTasksToRun_step rc (acc, r') p") auto
  have st: "task_status r (fst p) = Some (rt_Status (snd p))"
    using Cons.prems(3) by simp
  have a1: "acc1 = (if eligible r rc (snd p) then acc @ [snd p] else acc)"
    using s deps_satisfied_cong [OF Cons.prems(1,2)]
    by (auto simp: getTasksToRun_step_def eligible_def Let_def split: option.splits if_splits)
  have nt: "rt_Status (snd p) = RunTaskStatusNotStarted \<Longrightarrow>
            \<forall>st. task_status r' (fst p) = Some st \<longrightarrow> \<not> terminal st"
  proof -
    assume ns: "rt_Status (snd p) = RunTaskStatusNotStarted"
    have "\<not> dep_terminal r \<lparr>dep_TaskID = fst p, dep_Conditions = []\<rparr>"
      using st ns by (simp add: dep_terminal_def)
    then have "\<not> dep_terminal r' \<lparr>dep_TaskID = fst p, dep_Conditions = []\<rparr>"
      using Cons.prems(1) by simp
    then show ?thesis by (auto simp: dep_terminal_def)
  qed
  have inv: "dep_terminal r1 = dep_terminal r \<and> dep_matches r1 = dep_matches r"
    using s Cons.prems(1,2) nt waiting_keeps_deps [of r' "fst p"]
    by (auto simp: getTasksToRun_step_def Let_def split: option.splits if_splits)
  have "fst (foldl (getTasksToRun_step rc) (acc1, r1) xs)
          = acc1 @ filter (eligible r rc) (map snd xs)"
    using Cons.IH [of r1 acc1] inv Cons.prems(3) by simp
  then show ?case using s a1 by simp
qed

lemma distinct_entries:
  "distinct (map fst (r_RunTasks r)) \<Longrightarrow>
   \<forall>p\<in>set (r_RunTasks r). task_status r (fst p) = Some (rt_Status (snd p))"
  by (auto simp: task_status_def)

lemma getTasksToRun_eligible:
  assumes "distinct (map fst (r_RunTasks r))"
  shows "fst (getTasksToRun r rc) = filter (eligible r rc) (map snd (r_RunTasks r))"
  unfolding getTasksToRun_def
  using getTasksToRun_fold [of r r "r_RunTasks r" rc "[]"] distinct_entries [OF assms]
  by simp

lemma dep_ok_iff:
  "dep_terminal r d \<and> dep_matches r d \<longleftrightarrow>
     (\<exists>st. task_status r (dep_TaskID d) = Some st \<and> terminal st
          \<and> (\<exists>c. status_condition st = Some c \<and> c \<in> set (depend_conditions d)))"
  by (cases "task_status r (dep_TaskID d)")
     (auto simp: dep_terminal_def dep_matches_def split: option.splits)

lemma deps_satisfied_iff:
  "deps_satisfied r ct \<longleftrightarrow>
     (\<forall>d\<in>set (rct_Depends ct). \<exists>st. task_status r (dep_TaskID d) = Some st \<and> terminal st
          \<and> (\<exists>c. status_condition st = Some c \<and> c \<in> set (depend_conditions d)))"
  by (simp add: deps_satisfied_def list_all_iff dep_ok_iff)

text \<open>The cases of the test of the source; the test compares the sorted ids.\<close>

lemma TestGetTasksToRun:
  "map rt_ID (fst (getTasksToRun (test_run all_not_started) test_rc))
     = [''task01'', ''task03'', ''task04'']"
  "map rt_ID (fst (getTasksToRun
      (test_run [RunTaskStatusSkipped, RunTaskStatusSkipped, RunTaskStatusNotStarted,
                 RunTaskStatusNotStarted, RunTaskStatusNotStarted])
      (test_rc_task01 (\<lambda>ct. ct\<lparr>rct_Skip := True\<rparr>))))
     = [''task03'', ''task04'']"
  "map rt_ID (fst (getTasksToRun (test_run all_not_started)
      (test_rc_task01 (\<lambda>ct. ct\<lparr>rct_NeedsApproval := True\<rparr>))))
     = [''task03'', ''task04'']"
  "map rt_ID (fst (getTasksToRun test_run_approved01
      (test_rc_task01 (\<lambda>ct. ct\<lparr>rct_NeedsApproval := True\<rparr>))))
     = [''task01'', ''task03'', ''task04'']"
  by code_simp+

text \<open>
  C1. For a run whose task list has no repeated key (it stands for a Go map),
  \<^verbatim>\<open>getTasksToRun\<close> returns exactly the tasks of the run whose status is not started,
  whose run config task exists and has \<open>Skip\<close> false, whose every dependency has a
  terminal status that satisfies one of the dependency's conditions (on_success when
  unspecified), and which are approved if the run config task needs an approval. So
  every returned task is not started, and a task that needs an approval and is not
  approved is not returned.
\<close>

theorem C1_getTasksToRun_exactly_eligible:
  assumes "distinct (map fst (r_RunTasks r))"
  shows "set (fst (getTasksToRun r rc))
           = {t \<in> snd ` set (r_RunTasks r).
                rt_Status t = RunTaskStatusNotStarted
              \<and> (\<exists>ct. map_of (rc_Tasks rc) (rt_ID t) = Some ct
                   \<and> \<not> rct_Skip ct
                   \<and> (\<forall>d\<in>set (rct_Depends ct).
                         \<exists>st. task_status r (dep_TaskID d) = Some st \<and> terminal st
                            \<and> (\<exists>c. status_condition st = Some c
                                  \<and> c \<in> set (depend_conditions d)))
                   \<and> (rct_NeedsApproval ct \<longrightarrow> rt_Approved t))}
       \<and> (\<forall>t\<in>set (fst (getTasksToRun r rc)). rt_Status t = RunTaskStatusNotStarted)
       \<and> (\<forall>t\<in>set (fst (getTasksToRun r rc)). \<forall>ct.
             map_of (rc_Tasks rc) (rt_ID t) = Some ct \<and> rct_NeedsApproval ct \<longrightarrow> rt_Approved t)"
  unfolding getTasksToRun_eligible [OF assms]
  by (auto simp: eligible_def deps_satisfied_iff split: option.splits)


theorem C1_getTasksToRun_exactly_eligible_witness:
  "distinct (map fst (r_RunTasks (test_run all_not_started)))
   \<and> snd (mk_runtask ''task01'' RunTaskStatusNotStarted)
       \<in> snd ` set (r_RunTasks (test_run all_not_started))
   \<and> snd (mk_runtask ''task01'' RunTaskStatusNotStarted)
       \<notin> set (fst (getTasksToRun (test_run all_not_started)
                      (test_rc_task01 (\<lambda>ct. ct\<lparr>rct_NeedsApproval := True\<rparr>))))
   \<and> snd (mk_runtask ''task03'' RunTaskStatusNotStarted)
       \<in> set (fst (getTasksToRun (test_run all_not_started)
                      (test_rc_task01 (\<lambda>ct. ct\<lparr>rct_NeedsApproval := True\<rparr>))))"
proof -
  let ?r = "test_run all_not_started"
  let ?rc = "test_rc_task01 (\<lambda>ct. ct\<lparr>rct_NeedsApproval := True\<rparr>)"
  have d: "distinct (map fst (r_RunTasks ?r))"
    by code_simp
  note C = C1_getTasksToRun_exactly_eligible [OF d, of ?rc]
  have m: "snd (mk_runtask ''task01'' RunTaskStatusNotStarted) \<in> snd ` set (r_RunTasks ?r)"
    by (simp add: test_run_def all_not_started_def)
  have c: "map_of (rc_Tasks ?rc) (rt_ID (snd (mk_runtask ''task01'' RunTaskStatusNotStarted)))
             = Some ((snd (mk_task ''task01'' []))\<lparr>rct_NeedsApproval := True\<rparr>)"
    by code_simp
  have n: "rct_NeedsApproval ((snd (mk_task ''task01'' []))\<lparr>rct_NeedsApproval := True\<rparr>)"
          "\<not> rt_Approved (snd (mk_runtask ''task01'' RunTaskStatusNotStarted))"
    by (simp_all add: mk_runtask_def)
  have a: "snd (mk_runtask ''task01'' RunTaskStatusNotStarted)
             \<notin> set (fst (getTasksToRun ?r ?rc))"
    using C c n by blast
  have i: "map rt_ID (fst (getTasksToRun ?r ?rc)) = [''task03'', ''task04'']"
    by (rule TestGetTasksToRun(3))
  have t: "rt_ID (snd (mk_runtask ''task03'' RunTaskStatusNotStarted)) = ''task03''"
          "rt_ID (snd (mk_runtask ''task04'' RunTaskStatusNotStarted)) = ''task04''"
    by (simp_all add: mk_runtask_def)
  have e: "fst (getTasksToRun ?r ?rc)
             = [snd (mk_runtask ''task03'' RunTaskStatusNotStarted),
                snd (mk_runtask ''task04'' RunTaskStatusNotStarted)]"
    by code_simp
  show ?thesis
    using d m a e by simp
qed

subsection \<open>advanceRunTasks\<close>

lemma dep_ordered_append:
  "dep_ordered seen (xs @ ys) \<longleftrightarrow> dep_ordered seen xs \<and> dep_ordered (seen @ map fst xs) ys"
  by (induction xs arbitrary: seen) auto

lemma topo_round_ordered:
  "dep_ordered [] placed \<Longrightarrow> dep_ordered [] (fst (topo_round placed pending))"
  by (induction placed pending rule: topo_round.induct)
     (auto simp: dep_ordered_append split: prod.splits)

lemma topo_round_set:
  "set (fst (topo_round placed pending)) \<union> set (snd (topo_round placed pending))
     = set placed \<union> set pending"
proof (induction placed pending rule: topo_round.induct)
  case (1 placed)
  show ?case by simp
next
  case (2 placed p ps)
  show ?case
  proof (cases "list_all (\<lambda>d. dep_TaskID d \<in> set (map fst placed)) (rct_Depends (snd p))")
    case True
    then show ?thesis using 2(1) by simp
  next
    case False
    obtain pl rest where tr: "topo_round placed ps = (pl, rest)"
      by (cases "topo_round placed ps") auto
    have "set pl \<union> set rest = set placed \<union> set ps"
      using 2(2) [OF False] tr by simp
    then have "set pl \<union> insert p (set rest) = set placed \<union> insert p (set ps)"
      by blast
    then show ?thesis using False tr by simp
  qed
qed

lemma topo_round_distinct:
  "distinct (map fst (placed @ pending)) \<Longrightarrow>
   distinct (map fst (fst (topo_round placed pending) @ snd (topo_round placed pending)))"
proof (induction placed pending rule: topo_round.induct)
  case (1 placed)
  then show ?case by simp
next
  case (2 placed p ps)
  show ?case
  proof (cases "list_all (\<lambda>d. dep_TaskID d \<in> set (map fst placed)) (rct_Depends (snd p))")
    case True
    then show ?thesis using 2 by simp
  next
    case False
    obtain pl rest where tr: "topo_round placed ps = (pl, rest)"
      by (cases "topo_round placed ps") auto
    have d: "distinct (map fst (pl @ rest))"
      using 2(2)[OF False] 2(3) tr by simp
    have s: "set pl \<union> set rest = set placed \<union> set ps"
      using topo_round_set [of placed ps] tr by simp
    have "fst p \<notin> fst ` (set placed \<union> set ps)"
      using 2(3) by auto
    then have "fst p \<notin> fst ` (set pl \<union> set rest)" using s by simp
    then show ?thesis using False tr d by auto
  qed
qed

lemma topo_rounds_ordered:
  "dep_ordered [] placed \<Longrightarrow> dep_ordered [] (topo_rounds n placed pending)"
proof (induction n arbitrary: placed pending)
  case 0
  then show ?case by simp
next
  case (Suc n)
  obtain pl rest where tr: "topo_round placed pending = (pl, rest)"
    by (cases "topo_round placed pending") auto
  have "dep_ordered [] pl" using topo_round_ordered [OF Suc.prems, of pending] tr by simp
  then show ?case using Suc.IH tr by simp
qed

lemma topo_rounds_subset_distinct:
  "distinct (map fst (placed @ pending)) \<Longrightarrow>
   set (topo_rounds n placed pending) \<subseteq> set placed \<union> set pending
   \<and> distinct (map fst (topo_rounds n placed pending))"
proof (induction n arbitrary: placed pending)
  case 0
  then show ?case by simp
next
  case (Suc n)
  obtain pl rest where tr: "topo_round placed pending = (pl, rest)"
    by (cases "topo_round placed pending") auto
  have d: "distinct (map fst (pl @ rest))"
    using topo_round_distinct [OF Suc.prems] tr by simp
  have s: "set pl \<union> set rest = set placed \<union> set pending"
    using topo_round_set [of placed pending] tr by simp
  show ?case using Suc.IH [OF d] s tr by auto
qed

lemma topo_order_ordered: "dep_ordered [] (topo_order rc)"
  unfolding topo_order_def by (rule topo_rounds_ordered) simp

lemma topo_order_distinct:
  "distinct (map fst (rc_Tasks rc)) \<Longrightarrow> distinct (map fst (topo_order rc))"
  unfolding topo_order_def using topo_rounds_subset_distinct [of "[]" "rc_Tasks rc"] by simp

lemma topo_order_subset:
  "distinct (map fst (rc_Tasks rc)) \<Longrightarrow> set (topo_order rc) \<subseteq> set (rc_Tasks rc)"
  unfolding topo_order_def using topo_rounds_subset_distinct [of "[]" "rc_Tasks rc"] by simp

lemma topo_order_all:
  assumes "distinct (map fst (rc_Tasks rc))" and "is_dag rc"
  shows "set (topo_order rc) = set (rc_Tasks rc)"
proof -
  have d1: "distinct (topo_order rc)"
    using topo_order_distinct [OF assms(1)] by (rule distinct_map [THEN iffD1, THEN conjunct1])
  have d2: "distinct (rc_Tasks rc)"
    using assms(1) by (rule distinct_map [THEN iffD1, THEN conjunct1])
  have "card (set (topo_order rc)) = card (set (rc_Tasks rc))"
    using d1 d2 assms(2) by (simp add: distinct_card is_dag_def)
  then show ?thesis
    using topo_order_subset [OF assms(1)] by (simp add: card_subset_eq)
qed


lemma advance_task_other:
  "k \<noteq> fst p \<Longrightarrow> task_status (advance_task r p) k = task_status r k"
  by (auto simp: advance_task_def task_status_set_status split: option.splits)

lemma advance_task_self:
  "task_status (advance_task r p) (fst p)
     = map_option (\<lambda>st. if terminal st then st
                         else if should_skip r (snd p) then RunTaskStatusSkipped else st)
         (task_status r (fst p))"
  by (auto simp: advance_task_def task_status_set_status split: option.splits)

lemma foldl_advance_other:
  "k \<notin> fst ` set xs \<Longrightarrow> task_status (foldl advance_task r xs) k = task_status r k"
  by (induction xs arbitrary: r) (auto simp: advance_task_other)

lemma advance_task_terminal:
  "task_status r k = Some st \<Longrightarrow> terminal st \<Longrightarrow> task_status (advance_task r p) k = Some st"
  by (cases "k = fst p") (auto simp: advance_task_other advance_task_self)

lemma foldl_advance_terminal:
  "task_status r k = Some st \<Longrightarrow> terminal st \<Longrightarrow>
   task_status (foldl advance_task r xs) k = Some st"
  by (induction xs arbitrary: r) (auto simp: advance_task_terminal)

lemma should_skip_cong:
  "\<forall>d\<in>set (rct_Depends ct). task_status r' (dep_TaskID d) = task_status r (dep_TaskID d) \<Longrightarrow>
   should_skip r' ct = should_skip r ct"
  unfolding should_skip_def list_all_iff dep_terminal_def dep_matches_def by auto

lemma foldl_advance_at:
  assumes "fst p \<notin> fst ` set pre" and "fst p \<notin> fst ` set post"
    and "\<forall>d\<in>set (rct_Depends (snd p)). dep_TaskID d \<noteq> fst p \<and> dep_TaskID d \<notin> fst ` set post"
  shows "task_status (foldl advance_task r (pre @ p # post)) (fst p)
     = map_option (\<lambda>st. if terminal st then st
                         else if should_skip (foldl advance_task r (pre @ p # post)) (snd p)
                              then RunTaskStatusSkipped else st)
         (task_status r (fst p))"
proof -
  let ?r1 = "foldl advance_task r pre"
  let ?r2 = "advance_task ?r1 p"
  let ?r3 = "foldl advance_task ?r2 post"
  have e: "foldl advance_task r (pre @ p # post) = ?r3" by simp
  have a: "task_status ?r3 (fst p) = task_status ?r2 (fst p)"
    using assms(2) by (rule foldl_advance_other)
  have b: "task_status ?r1 (fst p) = task_status r (fst p)"
    using assms(1) by (rule foldl_advance_other)
  have c: "\<forall>d\<in>set (rct_Depends (snd p)).
             task_status ?r3 (dep_TaskID d) = task_status ?r1 (dep_TaskID d)"
    using assms(3) by (auto simp: foldl_advance_other advance_task_other)
  have s: "should_skip ?r3 (snd p) = should_skip ?r1 (snd p)"
    using c by (rule should_skip_cong)
  show ?thesis
    unfolding e a s advance_task_self b ..
qed

lemma dep_ordered_mid:
  "dep_ordered [] (pre @ p # post) \<Longrightarrow>
   \<forall>d\<in>set (rct_Depends (snd p)). dep_TaskID d \<in> fst ` set pre"
  by (auto simp: dep_ordered_append list_all_iff)

text \<open>
  \<open>is_dag\<close> is the existence of a dependency order of all tasks: the rounds place a
  task as soon as its dependencies are placed, so after as many rounds as there are
  tasks every task of a config that has such an order is placed; and when every task is
  placed, the computed order is one.
\<close>

lemma topo_round_grows: "set placed \<subseteq> set (fst (topo_round placed pending))"
  using topo_round_set [of placed pending]
proof (induction placed pending rule: topo_round.induct)
  case (1 placed)
  show ?case by simp
next
  case (2 placed p ps)
  show ?case
  proof (cases "list_all (\<lambda>d. dep_TaskID d \<in> set (map fst placed)) (rct_Depends (snd p))")
    case True
    have "set (placed @ [p]) \<subseteq> set (fst (topo_round (placed @ [p]) ps))"
      using 2(1) [OF True] topo_round_set [of "placed @ [p]" ps] by blast
    then show ?thesis using True by simp
  next
    case False
    obtain pl rest where tr: "topo_round placed ps = (pl, rest)"
      by (cases "topo_round placed ps") auto
    have "set placed \<subseteq> set pl"
      using 2(2) [OF False] topo_round_set [of placed ps] tr by simp
    then show ?thesis using False tr by simp
  qed
qed

lemma topo_round_places:
  "p \<in> set pending \<Longrightarrow>
   \<forall>d\<in>set (rct_Depends (snd p)). dep_TaskID d \<in> fst ` set placed \<Longrightarrow>
   p \<in> set (fst (topo_round placed pending))"
proof (induction placed pending rule: topo_round.induct)
  case (1 placed)
  then show ?case by simp
next
  case (2 placed q qs)
  show ?case
  proof (cases "list_all (\<lambda>d. dep_TaskID d \<in> set (map fst placed)) (rct_Depends (snd q))")
    case True
    show ?thesis
    proof (cases "p = q")
      case True
      have "q \<in> set (fst (topo_round (placed @ [q]) qs))"
        using topo_round_grows [of "placed @ [q]" qs] by auto
      then show ?thesis
        using \<open>list_all (\<lambda>d. dep_TaskID d \<in> set (map fst placed)) (rct_Depends (snd q))\<close> True
        by simp
    next
      case False
      then have m: "p \<in> set qs" using 2(3) by simp
      have "\<forall>d\<in>set (rct_Depends (snd p)). dep_TaskID d \<in> fst ` set (placed @ [q])"
        using 2(4) by auto
      then have "p \<in> set (fst (topo_round (placed @ [q]) qs))"
        using 2(1) [OF True m] by blast
      then show ?thesis using True by simp
    qed
  next
    case False
    then have "p \<noteq> q" using 2(4) by (auto simp: list_all_iff)
    then have m: "p \<in> set qs" using 2(3) by simp
    obtain pl rest where tr: "topo_round placed qs = (pl, rest)"
      by (cases "topo_round placed qs") auto
    have "p \<in> set pl" using 2(2) [OF False m 2(4)] tr by simp
    then show ?thesis using False tr by simp
  qed
qed

lemma topo_rounds_prefix:
  assumes "dep_ordered [] perm"
  shows "set perm \<subseteq> set placed \<union> set pending \<Longrightarrow> set (take k perm) \<subseteq> set placed \<Longrightarrow>
         set (take (k + n) perm) \<subseteq> set (topo_rounds n placed pending)"
proof (induction n arbitrary: k placed pending)
  case 0
  then show ?case by simp
next
  case (Suc n)
  obtain pl rest where tr: "topo_round placed pending = (pl, rest)"
    by (cases "topo_round placed pending") auto
  have g: "set placed \<subseteq> set pl" using topo_round_grows [of placed pending] tr by simp
  have u: "set perm \<subseteq> set pl \<union> set rest"
    using Suc.prems(1) topo_round_set [of placed pending] tr by simp
  have t: "set (take (Suc k) perm) \<subseteq> set pl"
  proof (cases "k < length perm")
    case False
    then show ?thesis using Suc.prems(2) g by simp
  next
    case True
    then have sp: "perm = take k perm @ (perm ! k) # drop (Suc k) perm"
      by (simp add: id_take_nth_drop)
    have od: "\<forall>d\<in>set (rct_Depends (snd (perm ! k))). dep_TaskID d \<in> fst ` set (take k perm)"
      using dep_ordered_mid [of "take k perm" "perm ! k" "drop (Suc k) perm"] assms sp by simp
    then have odp: "\<forall>d\<in>set (rct_Depends (snd (perm ! k))). dep_TaskID d \<in> fst ` set placed"
      using Suc.prems(2) by blast
    have "perm ! k \<in> set perm" using True by simp
    then have "perm ! k \<in> set placed \<or> perm ! k \<in> set pending"
      using Suc.prems(1) by blast
    then have "perm ! k \<in> set pl"
      using g topo_round_places [OF _ odp, of pending] tr by auto
    then show ?thesis
      using Suc.prems(2) g True by (auto simp: take_Suc_conv_app_nth)
  qed
  have "set (take (Suc k + n) perm) \<subseteq> set (topo_rounds n pl rest)"
    using Suc.IH [OF u t] .
  then show ?case using tr by simp
qed

lemma is_dag_complete:
  assumes "distinct (map fst (rc_Tasks rc))"
    and "dep_ordered [] perm" and "set perm = set (rc_Tasks rc)"
    and "length perm = length (rc_Tasks rc)"
  shows "is_dag rc"
proof -
  have "set (take (0 + length (rc_Tasks rc)) perm) \<subseteq> set (topo_order rc)"
    unfolding topo_order_def
    using topo_rounds_prefix [OF assms(2), of "[]" "rc_Tasks rc" 0] assms(3) by simp
  then have a: "set (rc_Tasks rc) \<subseteq> set (topo_order rc)"
    using assms(3,4) by simp
  have e: "set (topo_order rc) = set (rc_Tasks rc)"
    using a topo_order_subset [OF assms(1)] by blast
  have d1: "distinct (topo_order rc)"
    using topo_order_distinct [OF assms(1)] by (rule distinct_map [THEN iffD1, THEN conjunct1])
  have d2: "distinct (rc_Tasks rc)"
    using assms(1) by (rule distinct_map [THEN iffD1, THEN conjunct1])
  have "length (topo_order rc) = card (set (topo_order rc))"
    using d1 by (simp add: distinct_card)
  also have "\<dots> = length (rc_Tasks rc)"
    using d2 e by (simp add: distinct_card)
  finally show ?thesis by (simp add: is_dag_def)
qed

lemma is_dag_sound:
  assumes "distinct (map fst (rc_Tasks rc))" and "is_dag rc"
  shows "dep_ordered [] (topo_order rc) \<and> set (topo_order rc) = set (rc_Tasks rc)
         \<and> length (topo_order rc) = length (rc_Tasks rc)"
  using topo_order_ordered [of rc] topo_order_all [OF assms] assms(2)
  by (simp add: is_dag_def)

lemma advanceRunTasks_status:
  assumes dk: "distinct (map fst (rc_Tasks rc))" and dag: "is_dag rc"
    and mem: "(taskID, ct) \<in> set (rc_Tasks rc)"
  shows "task_status (advanceRunTasks r rc) taskID
     = map_option (\<lambda>st. if terminal st then st
                         else if should_skip (advanceRunTasks r rc) ct
                              then RunTaskStatusSkipped else st)
         (task_status r taskID)"
proof -
  have "(taskID, ct) \<in> set (topo_order rc)"
    using topo_order_all [OF dk dag] mem by simp
  then obtain pre post where sp: "topo_order rc = pre @ (taskID, ct) # post"
    by (auto dest: split_list)
  have di: "distinct (map fst (pre @ (taskID, ct) # post))"
    using topo_order_distinct [OF dk] sp by simp
  have od: "\<forall>d\<in>set (rct_Depends ct). dep_TaskID d \<in> fst ` set pre"
    using dep_ordered_mid [of pre "(taskID, ct)" post] topo_order_ordered [of rc] sp by simp
  have 1: "fst (taskID, ct) \<notin> fst ` set pre" using di by auto
  have 2: "fst (taskID, ct) \<notin> fst ` set post" using di by auto
  have 3: "\<forall>d\<in>set (rct_Depends (snd (taskID, ct))).
             dep_TaskID d \<noteq> fst (taskID, ct) \<and> dep_TaskID d \<notin> fst ` set post"
  proof
    fix d assume "d \<in> set (rct_Depends (snd (taskID, ct)))"
    then have i: "dep_TaskID d \<in> fst ` set pre" using od by simp
    have "fst ` set pre \<inter> fst ` set post = {}" "taskID \<notin> fst ` set pre"
      using di by auto
    then show "dep_TaskID d \<noteq> fst (taskID, ct) \<and> dep_TaskID d \<notin> fst ` set post"
      using i by auto
  qed
  have ar: "advanceRunTasks r rc = foldl advance_task r (pre @ (taskID, ct) # post)"
    by (simp only: advanceRunTasks_def sp)
  show ?thesis
    unfolding ar using foldl_advance_at [OF 1 2 3, of r] by (simp only: fst_conv snd_conv)
qed


lemma skipped_deps_should_skip:
  assumes "rct_Depends ct \<noteq> []"
    and "\<forall>d\<in>set (rct_Depends ct). task_status r (dep_TaskID d) = Some RunTaskStatusSkipped
           \<and> on_skipped \<notin> set (depend_conditions d)"
  shows "should_skip r ct"
  using assms by (auto simp: should_skip_def list_all_iff dep_terminal_def dep_matches_def)

lemma matched_dep_no_skip:
  "\<exists>d\<in>set (rct_Depends ct). dep_matches r d \<Longrightarrow> \<not> should_skip r ct"
  by (auto simp: should_skip_def list_all_iff)

lemma dep_terminal_matches_kept:
  assumes "dep_terminal r d" and "dep_matches r d"
  shows "dep_terminal (advanceRunTasks r rc) d \<and> dep_matches (advanceRunTasks r rc) d"
proof -
  obtain st where st: "task_status r (dep_TaskID d) = Some st" "terminal st"
    using assms(1) by (auto simp: dep_terminal_def split: option.splits)
  have "task_status (advanceRunTasks r rc) (dep_TaskID d) = Some st"
    unfolding advanceRunTasks_def using st by (rule foldl_advance_terminal)
  then show ?thesis using assms st by (simp add: dep_terminal_def dep_matches_def)
qed

text \<open>The cases of the test of the source.\<close>

lemma TestAdvanceRunTasks:
  "advanceRunTasks (test_run all_not_started) test_rc
     = test_run all_not_started"
  "advanceRunTasks
     (test_run [RunTaskStatusSkipped, RunTaskStatusNotStarted, RunTaskStatusNotStarted,
                RunTaskStatusNotStarted, RunTaskStatusNotStarted])
     (test_rc_task01 (\<lambda>ct. ct\<lparr>rct_Skip := True\<rparr>))
     = test_run [RunTaskStatusSkipped, RunTaskStatusSkipped, RunTaskStatusNotStarted,
                 RunTaskStatusNotStarted, RunTaskStatusNotStarted]"
  "advanceRunTasks
     (test_run [RunTaskStatusNotStarted, RunTaskStatusNotStarted, RunTaskStatusSkipped,
                RunTaskStatusSkipped, RunTaskStatusNotStarted]) test_rc
     = test_run [RunTaskStatusNotStarted, RunTaskStatusNotStarted, RunTaskStatusSkipped,
                 RunTaskStatusSkipped, RunTaskStatusSkipped]"
  "advanceRunTasks
     (test_run [RunTaskStatusNotStarted, RunTaskStatusNotStarted, RunTaskStatusSkipped,
                RunTaskStatusSuccess, RunTaskStatusNotStarted]) test_rc
     = test_run [RunTaskStatusNotStarted, RunTaskStatusNotStarted, RunTaskStatusSkipped,
                 RunTaskStatusSuccess, RunTaskStatusNotStarted]"
  by code_simp+

text \<open>
  C2, as stated, fails twice. In the first case of the test of the source task01 has no
  dependency, so all of its dependencies are skipped, it is not terminal, and it stays
  not started. And a task whose only dependency is skipped and carries the condition
  on_skipped has all its dependencies skipped and is left not started: that dependency
  satisfies its condition, which is what the second half of the claim says.
\<close>

theorem C2_not_skipped_counterexample:
  "task_status (test_run all_not_started) ''task01''
     = Some RunTaskStatusNotStarted
   \<and> map_of (rc_Tasks test_rc) ''task01'' = Some (snd (mk_task ''task01'' []))
   \<and> rct_Depends (snd (mk_task ''task01'' [])) = []
   \<and> task_status (advanceRunTasks (test_run all_not_started) test_rc)
        ''task01'' = Some RunTaskStatusNotStarted
   \<and> task_status skip_run ''task02'' = Some RunTaskStatusNotStarted
   \<and> map dep_TaskID (rct_Depends (snd (rc_Tasks skip_rc ! 1))) = [''task01'']
   \<and> task_status (advanceRunTasks skip_run skip_rc) ''task01'' = Some RunTaskStatusSkipped
   \<and> task_status (advanceRunTasks skip_run skip_rc) ''task02'' = Some RunTaskStatusNotStarted"
  by code_simp


text \<open>
  C2, amended. In a run config whose task list has no repeated key and whose tasks all
  get a place in the topological order, take a task that is in the run and not terminal
  before the pass. If it has at least one dependency, every dependency has status
  skipped after the pass and no dependency's conditions (on_success when unspecified)
  contain on_skipped, then the task has status skipped after the pass. If some
  dependency has, after the pass or already before it, a terminal status that satisfies
  the dependency's conditions, the task keeps the status it had.
\<close>

theorem C2_advanceRunTasks_skip_propagation:
  assumes "distinct (map fst (rc_Tasks rc))" and "is_dag rc"
    and "(taskID, ct) \<in> set (rc_Tasks rc)"
    and "task_status r taskID = Some st" and "\<not> terminal st"
  shows "(rct_Depends ct \<noteq> []
          \<and> (\<forall>d\<in>set (rct_Depends ct).
                task_status (advanceRunTasks r rc) (dep_TaskID d) = Some RunTaskStatusSkipped
              \<and> on_skipped \<notin> set (depend_conditions d))
          \<longrightarrow> task_status (advanceRunTasks r rc) taskID = Some RunTaskStatusSkipped)
       \<and> ((\<exists>d\<in>set (rct_Depends ct).
               dep_terminal (advanceRunTasks r rc) d \<and> dep_matches (advanceRunTasks r rc) d)
          \<longrightarrow> task_status (advanceRunTasks r rc) taskID = Some st)
       \<and> ((\<exists>d\<in>set (rct_Depends ct). dep_terminal r d \<and> dep_matches r d)
          \<longrightarrow> task_status (advanceRunTasks r rc) taskID = Some st)"
proof -
  note S = advanceRunTasks_status [OF assms(1,2,3), of r]
  show ?thesis
  proof (intro conjI impI)
    assume "rct_Depends ct \<noteq> []
          \<and> (\<forall>d\<in>set (rct_Depends ct).
                task_status (advanceRunTasks r rc) (dep_TaskID d) = Some RunTaskStatusSkipped
              \<and> on_skipped \<notin> set (depend_conditions d))"
    then have "should_skip (advanceRunTasks r rc) ct"
      using skipped_deps_should_skip [of ct "advanceRunTasks r rc"] by blast
    then show "task_status (advanceRunTasks r rc) taskID = Some RunTaskStatusSkipped"
      using S assms(4,5) by simp
  next
    assume "\<exists>d\<in>set (rct_Depends ct).
               dep_terminal (advanceRunTasks r rc) d \<and> dep_matches (advanceRunTasks r rc) d"
    then have "\<not> should_skip (advanceRunTasks r rc) ct"
      using matched_dep_no_skip [of ct "advanceRunTasks r rc"] by blast
    then show "task_status (advanceRunTasks r rc) taskID = Some st"
      using S assms(4,5) by simp
  next
    assume "\<exists>d\<in>set (rct_Depends ct). dep_terminal r d \<and> dep_matches r d"
    then have "\<exists>d\<in>set (rct_Depends ct). dep_matches (advanceRunTasks r rc) d"
      using dep_terminal_matches_kept [of r _ rc] by blast
    then have "\<not> should_skip (advanceRunTasks r rc) ct"
      by (rule matched_dep_no_skip)
    then show "task_status (advanceRunTasks r rc) taskID = Some st"
      using S assms(4,5) by simp
  qed
qed


theorem C2_advanceRunTasks_skip_propagation_witness:
  "distinct (map fst (rc_Tasks test_rc)) \<and> is_dag test_rc
   \<and> task_status
         (advanceRunTasks
            (test_run [RunTaskStatusNotStarted, RunTaskStatusNotStarted, RunTaskStatusSkipped,
                       RunTaskStatusSkipped, RunTaskStatusNotStarted]) test_rc)
         ''task05'' = Some RunTaskStatusSkipped
   \<and> task_status
         (advanceRunTasks
            (test_run [RunTaskStatusNotStarted, RunTaskStatusNotStarted, RunTaskStatusSkipped,
                       RunTaskStatusSuccess, RunTaskStatusNotStarted]) test_rc)
         ''task05'' = Some RunTaskStatusNotStarted"
proof -
  let ?r1 = "test_run [RunTaskStatusNotStarted, RunTaskStatusNotStarted, RunTaskStatusSkipped,
                       RunTaskStatusSkipped, RunTaskStatusNotStarted]"
  let ?r2 = "test_run [RunTaskStatusNotStarted, RunTaskStatusNotStarted, RunTaskStatusSkipped,
                       RunTaskStatusSuccess, RunTaskStatusNotStarted]"
  let ?ct = "snd (mk_task ''task05'' [''task03'', ''task04''])"
  have d: "distinct (map fst (rc_Tasks test_rc))" by code_simp
  have g: "is_dag test_rc" by code_simp
  have m: "(''task05'', ?ct) \<in> set (rc_Tasks test_rc)"
    by (simp add: test_rc_def mk_task_def)
  have s1: "task_status ?r1 ''task05'' = Some RunTaskStatusNotStarted" by code_simp
  have s2: "task_status ?r2 ''task05'' = Some RunTaskStatusNotStarted" by code_simp
  have n: "\<not> terminal RunTaskStatusNotStarted" by simp
  have h1: "rct_Depends ?ct \<noteq> []
            \<and> (\<forall>d\<in>set (rct_Depends ?ct).
                  task_status (advanceRunTasks ?r1 test_rc) (dep_TaskID d)
                    = Some RunTaskStatusSkipped
                \<and> on_skipped \<notin> set (depend_conditions d))"
    unfolding TestAdvanceRunTasks(3) by code_simp
  have h2: "\<exists>d\<in>set (rct_Depends ?ct). dep_terminal ?r2 d \<and> dep_matches ?r2 d"
    by code_simp
  have a: "task_status (advanceRunTasks ?r1 test_rc) ''task05'' = Some RunTaskStatusSkipped"
    using C2_advanceRunTasks_skip_propagation [OF d g m s1 n] h1 by blast
  have b: "task_status (advanceRunTasks ?r2 test_rc) ''task05'' = Some RunTaskStatusNotStarted"
    using C2_advanceRunTasks_skip_propagation [OF d g m s2 n] h2 by blast
  show ?thesis
    using d g a b by (intro conjI)
qed

end
